theory Spec2Isabelle
  imports Complex_Main "HOL-Library.Multiset"
begin

section \<open>JavaScript values used by the engine\<close>

text \<open>
  A JavaScript \<^verbatim>\<open>number\<close> is a finite value, one of the two infinities, or NaN.
  Finite values are rationals here: rounding and the sign of zero are not modelled
  (a zero divisor is taken as \<^verbatim>\<open>+0\<close>). Comparisons with NaN are false and arithmetic
  on NaN gives NaN, as in the language.
\<close>

datatype number = Fin rat | PInf | NInf | NaN

fun num_le :: "number \<Rightarrow> number \<Rightarrow> bool" where
  "num_le NaN _ = False"
| "num_le _ NaN = False"
| "num_le (Fin a) (Fin b) = (a \<le> b)"
| "num_le NInf _ = True"
| "num_le _ PInf = True"
| "num_le PInf _ = False"
| "num_le _ NInf = False"

fun num_lt :: "number \<Rightarrow> number \<Rightarrow> bool" where
  "num_lt NaN _ = False"
| "num_lt _ NaN = False"
| "num_lt (Fin a) (Fin b) = (a < b)"
| "num_lt PInf _ = False"
| "num_lt _ NInf = False"
| "num_lt NInf _ = True"
| "num_lt _ PInf = True"

definition num_gt :: "number \<Rightarrow> number \<Rightarrow> bool" where
  "num_gt a b = num_lt b a"

fun num_sub :: "number \<Rightarrow> number \<Rightarrow> number" where
  "num_sub NaN _ = NaN"
| "num_sub _ NaN = NaN"
| "num_sub (Fin a) (Fin b) = Fin (a - b)"
| "num_sub (Fin a) PInf = NInf"
| "num_sub (Fin a) NInf = PInf"
| "num_sub PInf PInf = NaN"
| "num_sub PInf _ = PInf"
| "num_sub NInf NInf = NaN"
| "num_sub NInf _ = NInf"

fun inf_times :: "number \<Rightarrow> rat \<Rightarrow> number" where
  "inf_times PInf a = (if a = 0 then NaN else if 0 < a then PInf else NInf)"
| "inf_times NInf a = (if a = 0 then NaN else if 0 < a then NInf else PInf)"
| "inf_times x a = x"

fun num_mul :: "number \<Rightarrow> number \<Rightarrow> number" where
  "num_mul NaN _ = NaN"
| "num_mul _ NaN = NaN"
| "num_mul (Fin a) (Fin b) = Fin (a * b)"
| "num_mul (Fin a) y = inf_times y a"
| "num_mul x (Fin b) = inf_times x b"
| "num_mul PInf PInf = PInf"
| "num_mul PInf NInf = NInf"
| "num_mul NInf PInf = NInf"
| "num_mul NInf NInf = PInf"

fun num_div :: "number \<Rightarrow> number \<Rightarrow> number" where
  "num_div NaN _ = NaN"
| "num_div _ NaN = NaN"
| "num_div (Fin a) (Fin b) =
     (if b \<noteq> 0 then Fin (a / b)
      else if a = 0 then NaN else if 0 < a then PInf else NInf)"
| "num_div (Fin a) _ = Fin 0"
| "num_div PInf (Fin b) = (if 0 \<le> b then PInf else NInf)"
| "num_div NInf (Fin b) = (if 0 \<le> b then NInf else PInf)"
| "num_div _ _ = NaN"

text \<open>
  A value that was thrown: an \<^verbatim>\<open>Error\<close> object with its message, or any other value
  with its \<^verbatim>\<open>String(...)\<close> rendering. \<open>error_text\<close> is the expression
  \<^verbatim>\<open>error instanceof Error ? error.message : String(error)\<close>.
\<close>

datatype thrown = ErrorObject string | OtherValue string

fun error_text :: "thrown \<Rightarrow> string" where
  "error_text (ErrorObject m) = m"
| "error_text (OtherValue s) = s"

text \<open>The reply of an awaited collaborator call: it throws, or it returns a value.\<close>

datatype 'a reply = Throws thrown | Returns 'a

text \<open>
  How a call ends: it returns to its caller, or it calls \<^verbatim>\<open>process.exit(code)\<close>, which
  ends the process and never returns.
\<close>

datatype 'a outcome = Return 'a | Exit int

section \<open>Profit calculation (utils)\<close>

text \<open>
  \<^verbatim>\<open>calculateProfit(baseAmount: number | string, newAmount: number | string)\<close>.
  A string argument goes through \<^verbatim>\<open>parseFloat\<close>, a built-in of the language that is
  a parameter here.
\<close>

datatype amount = Num number | Str string

fun coerce :: "(string \<Rightarrow> number) \<Rightarrow> amount \<Rightarrow> number" where
  "coerce parseFloat (Num n) = n"
| "coerce parseFloat (Str s) = parseFloat s"

definition calculateProfit :: "(string \<Rightarrow> number) \<Rightarrow> amount \<Rightarrow> amount \<Rightarrow> number" where
  "calculateProfit parseFloat baseAmount newAmount =
     (let base = coerce parseFloat baseAmount;
          newAmt = coerce parseFloat newAmount
      in if num_le base (Fin 0) then Fin 0
         else num_mul (num_div (num_sub newAmt base) base) (Fin 100))"

text \<open>The strategies call it on two numbers; \<^verbatim>\<open>parseFloat\<close> is then never applied.\<close>

definition profitOf :: "number \<Rightarrow> number \<Rightarrow> number" where
  "profitOf base newAmt = calculateProfit (\<lambda>s. NaN) (Num base) (Num newAmt)"

section \<open>Routes of the Jupiter SDK\<close>

text \<open>
  A route: the strategies read its \<^verbatim>\<open>outAmount\<close> (a big integer) and pass
  \<^verbatim>\<open>totalFees\<close> on; \<open>marketInfos\<close> stands for the hops, which they never read.
\<close>

record RouteInfo =
  outAmount :: int
  totalFees :: "number option"
  marketInfos :: "string list"

text \<open>
  What \<^verbatim>\<open>computeRoutes\<close> resolves to, as \<^verbatim>\<open>checkRoutesResponse(routes: any)\<close> looks at
  it: nothing (a falsy value), an object without \<^verbatim>\<open>routesInfos\<close>, or an object with the
  list of routes.
\<close>

datatype routes_response = NoResponse | NoRoutesInfos | RoutesInfos "RouteInfo list"

section \<open>Console output\<close>

text \<open>
  What a strategy writes with \<^verbatim>\<open>console.log\<close> and \<^verbatim>\<open>console.error\<close>, one value per
  call. A line built from a template keeps the values it interpolates; the formatting of
  numbers and dates is not modelled.
\<close>

datatype console =
    Log string
  | LogCount string nat
  | LogProfit string number
  | LogRoutes routes_response
  | LogPingPongIteration int bool number nat
  | LogArbitrageIteration int number nat
  | Error string
  | ErrorThrown string thrown

section \<open>Strategies that return a TradeResult (pingpong.ts, arbitrage.ts)\<close>

record Token =
  address :: string
  symbol :: string
  decimals :: nat

text \<open>
  \<^verbatim>\<open>TradeResult\<close> without its \<^verbatim>\<open>latency\<close>, which is a difference of wall-clock readings.
\<close>

record TradeResult =
  success :: bool
  inputAmount :: number
  outputAmount :: number
  profit :: number
  profitPercentage :: number
  txId :: "string option"
  fees :: "number option"
  error :: "string option"

text \<open>The result every failing path of \<^verbatim>\<open>execute\<close> returns, up to its error text.\<close>

definition failed :: "number \<Rightarrow> string \<Rightarrow> TradeResult" where
  "failed amount msg =
     \<lparr>success = False, inputAmount = amount, outputAmount = Fin 0, profit = Fin 0,
      profitPercentage = Fin 0, txId = None, fees = None, error = Some msg\<rparr>"

subsection \<open>pingpong.ts\<close>

datatype direction = ping | pong

record LastTrade =
  last_inputToken :: Token
  last_outputToken :: Token
  last_inputAmount :: number
  last_outputAmount :: number

text \<open>
  The fields of \<^verbatim>\<open>PingPongStrategy\<close> that \<^verbatim>\<open>execute\<close> reads or writes; \<open>wallet\<close> says
  whether \<^verbatim>\<open>this.wallet\<close> is set.
\<close>

record pingpong_state =
  wallet :: bool
  direction :: direction
  errorCount :: nat
  lastTrade :: "LastTrade option"

text \<open>
  A quote of the Jupiter v6 API; \<open>quote_outAmount\<close> is the number \<^verbatim>\<open>parseInt\<close> reads
  from its \<^verbatim>\<open>outAmount\<close> string (NaN when there is none).
\<close>

record JupiterQuote =
  quote_outAmount :: number

text \<open>
  What the collaborators answer during one call of \<^verbatim>\<open>execute\<close>, in the order the
  code awaits them: the quote request (whose response body is missing, or holds the list
  of quotes), the swap request, the decoding of the returned transaction, its submission
  (which gives the signature) and its confirmation. A reply after the first one that
  throws is never asked for.
\<close>

record pingpong_env =
  quoteResponse :: "JupiterQuote list option reply"
  swapResponse :: "string reply"
  transaction_from :: "unit reply"
  sendTransaction :: "string reply"
  confirmTransaction :: "unit reply"

text \<open>The body of the \<^verbatim>\<open>try\<close> block: \<open>Inl\<close> is the value it throws.\<close>

definition pingpong_try ::
  "pingpong_state \<Rightarrow> Token \<Rightarrow> Token \<Rightarrow> number \<Rightarrow> pingpong_env
     \<Rightarrow> thrown + (pingpong_state \<times> TradeResult)" where
  "pingpong_try st inputToken outputToken amount env =
     (case quoteResponse env of
        Throws e \<Rightarrow> Inl e
      | Returns None \<Rightarrow> Inr (st, failed amount ''No routes found'')
      | Returns (Some []) \<Rightarrow> Inr (st, failed amount ''No routes found'')
      | Returns (Some (bestRoute # others)) \<Rightarrow>
          (case swapResponse env of
             Throws e \<Rightarrow> Inl e
           | Returns swapTransaction \<Rightarrow>
          (case transaction_from env of
             Throws e \<Rightarrow> Inl e
           | Returns transaction \<Rightarrow>
          (case sendTransaction env of
             Throws e \<Rightarrow> Inl e
           | Returns signature \<Rightarrow>
          (case confirmTransaction env of
             Throws e \<Rightarrow> Inl e
           | Returns confirmation \<Rightarrow>
               (let out = num_div (quote_outAmount bestRoute) (Fin (10 ^ decimals outputToken));
                    p = (case lastTrade st of
                           None \<Rightarrow> Fin 0
                         | Some lt \<Rightarrow>
                             if direction st = pong then num_sub out (last_inputAmount lt)
                             else Fin 0);
                    pp = (case lastTrade st of
                            None \<Rightarrow> Fin 0
                          | Some lt \<Rightarrow>
                              if direction st = pong
                              then num_mul (num_div p (last_inputAmount lt)) (Fin 100)
                              else Fin 0)
                in Inr
                  (st\<lparr>lastTrade := Some \<lparr>last_inputToken = inputToken,
                                           last_outputToken = outputToken,
                                           last_inputAmount = amount,
                                           last_outputAmount = out\<rparr>,
                      direction := (if direction st = ping then pong else ping)\<rparr>,
                   \<lparr>success = True, inputAmount = amount, outputAmount = out, profit = p,
                    profitPercentage = pp, txId = Some signature, fees = Some (Fin 0),
                    error = None\<rparr>)))))))"

text \<open>
  \<^verbatim>\<open>execute\<close>: the wallet check, the \<^verbatim>\<open>try\<close> block, and the \<^verbatim>\<open>catch\<close> block with the
  error counter and its ceiling. The result is the new state, the console lines and how
  the call ends.
\<close>

definition pingpong_execute ::
  "pingpong_state \<Rightarrow> Token \<Rightarrow> Token \<Rightarrow> number \<Rightarrow> number \<Rightarrow> pingpong_env
     \<Rightarrow> pingpong_state \<times> console list \<times> TradeResult outcome" where
  "pingpong_execute st inputToken outputToken amount slippage env =
     (if \<not> wallet st
      then (st, [], Return (failed amount ''No wallet available for execution''))
      else
        (case pingpong_try st inputToken outputToken amount env of
           Inr (st', r) \<Rightarrow> (st', [], Return r)
         | Inl e \<Rightarrow>
             (let st' = st\<lparr>errorCount := errorCount st + 1\<rparr>
              in if errorCount st' > 100
                 then (st',
                       [ErrorThrown ''Trade execution error:'' e,
                        LogCount ''Error count is too high for swaps:'' (errorCount st'),
                        Log ''Ending to stop endless transactions failing''],
                       Exit 1)
                 else (st',
                       [ErrorThrown ''Trade execution error:'' e],
                       Return (failed amount (error_text e))))))"

subsection \<open>arbitrage.ts\<close>

record arbitrage_state =
  jupiter :: bool
  arb_errorCount :: nat

text \<open>
  The replies during one call: the conversion \<^verbatim>\<open>JSBI.BigInt(amount * 10 ** decimals)\<close>
  (it throws a RangeError unless the product is an integer), \<^verbatim>\<open>computeRoutes\<close> (where
  the construction of its arguments counts as part of the call), \<^verbatim>\<open>exchange\<close>, and the
  \<^verbatim>\<open>execute\<close> function that \<^verbatim>\<open>exchange\<close> hands back, whose result may hold a
  \<^verbatim>\<open>txid\<close>. The state of the strategy is whether \<^verbatim>\<open>this.jupiter\<close> is set, and the
  error counter.
\<close>

record arbitrage_env =
  bigInt :: "unit reply"
  computeRoutes :: "RouteInfo list reply"
  exchange :: "unit reply"
  execute_swap :: "string option reply"

definition arbitrage_try ::
  "Token \<Rightarrow> Token \<Rightarrow> number \<Rightarrow> arbitrage_env \<Rightarrow> thrown + TradeResult" where
  "arbitrage_try inputToken outputToken amount env =
     (case bigInt env of
        Throws e \<Rightarrow> Inl e
      | Returns amountInJSBI \<Rightarrow>
     (case computeRoutes env of
        Throws e \<Rightarrow> Inl e
      | Returns [] \<Rightarrow> Inr (failed amount ''No routes found'')
      | Returns (bestRoute # others) \<Rightarrow>
          (case exchange env of
             Throws e \<Rightarrow> Inl e
           | Returns ex \<Rightarrow>
          (case execute_swap env of
             Throws e \<Rightarrow> Inl e
           | Returns txid \<Rightarrow>
               (let out = num_div (Fin (of_int (outAmount bestRoute)))
                                  (Fin (10 ^ decimals outputToken));
                    p = num_sub out amount
                in Inr \<lparr>success = True, inputAmount = amount, outputAmount = out,
                        profit = p, profitPercentage = num_mul (num_div p amount) (Fin 100),
                        txId = txid, fees = totalFees bestRoute, error = None\<rparr>)))))"

definition arbitrage_execute ::
  "arbitrage_state \<Rightarrow> Token \<Rightarrow> Token \<Rightarrow> number \<Rightarrow> number \<Rightarrow> arbitrage_env
     \<Rightarrow> arbitrage_state \<times> console list \<times> TradeResult outcome" where
  "arbitrage_execute st inputToken outputToken amount slippage env =
     (if \<not> jupiter st
      then (st, [], Return (failed amount ''Jupiter not initialized''))
      else
        (case arbitrage_try inputToken outputToken amount env of
           Inr r \<Rightarrow> (st, [], Return r)
         | Inl e \<Rightarrow>
             (let st' = st\<lparr>arb_errorCount := arb_errorCount st + 1\<rparr>
              in if arb_errorCount st' > 100
                 then (st',
                       [ErrorThrown ''Trade execution error:'' e,
                        LogCount ''Error count is too high for swaps:'' (arb_errorCount st'),
                        Log ''Ending to stop endless transactions failing''],
                       Exit 1)
                 else (st',
                       [ErrorThrown ''Trade execution error:'' e],
                       Return (failed amount (error_text e))))))"

subsection \<open>A sequence of calls\<close>

text \<open>
  The scheduler calls \<^verbatim>\<open>execute\<close> again and again on the same strategy object. A call
  is its arguments together with the replies of the collaborators; the run stops at the
  first call that ends the process.
\<close>

record 'e call =
  call_inputToken :: Token
  call_outputToken :: Token
  call_amount :: number
  call_slippage :: number
  call_env :: 'e

definition pingpong_call ::
  "pingpong_state \<Rightarrow> pingpong_env call \<Rightarrow> pingpong_state \<times> console list \<times> TradeResult outcome" where
  "pingpong_call st c =
     pingpong_execute st (call_inputToken c) (call_outputToken c) (call_amount c)
       (call_slippage c) (call_env c)"

definition arbitrage_call ::
  "arbitrage_state \<Rightarrow> arbitrage_env call \<Rightarrow> arbitrage_state \<times> console list \<times> TradeResult outcome" where
  "arbitrage_call st c =
     arbitrage_execute st (call_inputToken c) (call_outputToken c) (call_amount c)
       (call_slippage c) (call_env c)"

fun run :: "('s \<Rightarrow> 'c \<Rightarrow> 's \<times> console list \<times> 'r outcome) \<Rightarrow> 's \<Rightarrow> 'c list
              \<Rightarrow> 's \<times> 'r outcome list" where
  "run exec s [] = (s, [])"
| "run exec s (c # cs) =
     (case exec s c of
        (s', out, Exit code) \<Rightarrow> (s', [Exit code])
      | (s', out, Return r) \<Rightarrow>
          (case run exec s' cs of (s'', rs) \<Rightarrow> (s'', Return r # rs)))"

text \<open>
  A call is an execution failure when the \<^verbatim>\<open>try\<close> block throws, and an executed trade
  when every collaborator answers and there is a route.
\<close>

fun throws :: "'a reply \<Rightarrow> bool" where
  "throws (Throws e) = True"
| "throws (Returns v) = False"

definition pingpong_fails :: "pingpong_env call \<Rightarrow> bool" where
  "pingpong_fails c =
     (case quoteResponse (call_env c) of
        Throws e \<Rightarrow> True
      | Returns None \<Rightarrow> False
      | Returns (Some []) \<Rightarrow> False
      | Returns (Some (q # qs)) \<Rightarrow>
          throws (swapResponse (call_env c)) \<or> throws (transaction_from (call_env c))
          \<or> throws (sendTransaction (call_env c)) \<or> throws (confirmTransaction (call_env c)))"

definition pingpong_trades :: "pingpong_env call \<Rightarrow> bool" where
  "pingpong_trades c =
     (case quoteResponse (call_env c) of
        Returns (Some (q # qs)) \<Rightarrow>
          \<not> throws (swapResponse (call_env c)) \<and> \<not> throws (transaction_from (call_env c))
          \<and> \<not> throws (sendTransaction (call_env c)) \<and> \<not> throws (confirmTransaction (call_env c))
      | _ \<Rightarrow> False)"

definition arbitrage_fails :: "arbitrage_env call \<Rightarrow> bool" where
  "arbitrage_fails c =
     (throws (bigInt (call_env c)) \<or>
      (case computeRoutes (call_env c) of
         Throws e \<Rightarrow> True
       | Returns [] \<Rightarrow> False
       | Returns (r # rs) \<Rightarrow>
           throws (exchange (call_env c)) \<or> throws (execute_swap (call_env c))))"

definition arbitrage_trades :: "arbitrage_env call \<Rightarrow> bool" where
  "arbitrage_trades c =
     (\<not> throws (bigInt (call_env c)) \<and>
      (case computeRoutes (call_env c) of
         Returns (r # rs) \<Rightarrow>
           \<not> throws (exchange (call_env c)) \<and> \<not> throws (execute_swap (call_env c))
       | _ \<Rightarrow> False))"

text \<open>
  The counter as the specification words it: one more on every failed execution, zero
  again after any successful one, untouched by a cycle that does not execute.
\<close>

fun spec_consecutiveErrorCount :: "('c \<Rightarrow> bool) \<Rightarrow> ('c \<Rightarrow> bool) \<Rightarrow> nat \<Rightarrow> 'c list \<Rightarrow> nat" where
  "spec_consecutiveErrorCount fails trades n [] = n"
| "spec_consecutiveErrorCount fails trades n (c # cs) =
     spec_consecutiveErrorCount fails trades
       (if fails c then n + 1 else if trades c then 0 else n) cs"

subsection \<open>Concrete strategies and calls\<close>

text \<open>
  Two tokens, the two strategies as they stand after \<^verbatim>\<open>initialize\<close>, and for each a call
  whose trade goes through and a call whose submission throws.
\<close>

definition SOL :: Token where
  "SOL = \<lparr>address = ''So11111111111111111111111111111111111111112'', symbol = ''SOL'', decimals = 9\<rparr>"

definition USDC :: Token where
  "USDC = \<lparr>address = ''EPjFWdd5AufqSSqeM2qN1xzybapC8G4wEGGkZwyTDt1v'', symbol = ''USDC'', decimals = 6\<rparr>"

definition pingpong_initial :: pingpong_state where
  "pingpong_initial = \<lparr>wallet = True, direction = ping, errorCount = 0, lastTrade = None\<rparr>"

definition arbitrage_initial :: arbitrage_state where
  "arbitrage_initial = \<lparr>jupiter = True, arb_errorCount = 0\<rparr>"

definition swap_of :: "'e \<Rightarrow> 'e call" where
  "swap_of env = \<lparr>call_inputToken = SOL, call_outputToken = USDC, call_amount = Fin 1,
                  call_slippage = Fin 50, call_env = env\<rparr>"

definition pingpong_good :: "pingpong_env call" where
  "pingpong_good = swap_of
     \<lparr>quoteResponse = Returns (Some [\<lparr>quote_outAmount = Fin 101000000\<rparr>]),
      swapResponse = Returns ''AQAB'', transaction_from = Returns (),
      sendTransaction = Returns ''5sig'', confirmTransaction = Returns ()\<rparr>"

definition pingpong_bad :: "pingpong_env call" where
  "pingpong_bad = swap_of
     \<lparr>quoteResponse = Returns (Some [\<lparr>quote_outAmount = Fin 101000000\<rparr>]),
      swapResponse = Returns ''AQAB'', transaction_from = Returns (),
      sendTransaction = Throws (ErrorObject ''Transaction simulation failed''),
      confirmTransaction = Returns ()\<rparr>"

definition arbitrage_good :: "arbitrage_env call" where
  "arbitrage_good = swap_of
     \<lparr>bigInt = Returns (),
      computeRoutes = Returns [\<lparr>outAmount = 101000000, totalFees = None, marketInfos = [''Orca'']\<rparr>],
      exchange = Returns (), execute_swap = Returns (Some ''5sig'')\<rparr>"

definition arbitrage_bad :: "arbitrage_env call" where
  "arbitrage_bad = swap_of
     \<lparr>bigInt = Returns (),
      computeRoutes = Returns [\<lparr>outAmount = 101000000, totalFees = None, marketInfos = [''Orca'']\<rparr>],
      exchange = Returns (), execute_swap = Throws (ErrorObject ''Transaction simulation failed'')\<rparr>"

text \<open>Whether a call returned a result with \<^verbatim>\<open>success: true\<close>.\<close>

definition succeeded :: "TradeResult outcome \<Rightarrow> bool" where
  "succeeded x = (case x of Return r \<Rightarrow> success r | Exit code \<Rightarrow> False)"

section \<open>Strategies that work on the bot cache (ArbitrageStrategy.ts)\<close>

text \<open>
  The fields of \<^verbatim>\<open>BotCache\<close> and of its configuration that the two strategies read or
  write. \<open>queue\<close> is the record from iteration number to status. The slippage setting only
  goes into the request and is left out, as is the request itself: the reply of the
  quote collaborator is arbitrary.
\<close>

record balances =
  tokenA :: number
  tokenB :: number

record routeCounts =
  buy :: nat
  sell :: nat

record TradingConfig =
  tradeSize_strategy :: string
  minPercProfit :: number

record BotCache =
  iteration :: int
  queue :: "int \<rightharpoonup> int"
  sideBuy :: bool
  initialBalance :: balances
  currentBalance :: balances
  lastBalance :: balances
  availableRoutes :: routeCounts
  tradingEnabled :: bool
  config :: TradingConfig

text \<open>
  The replies during one cycle: the conversion \<^verbatim>\<open>JSBI.BigInt(amountToTrade.toString())\<close>
  (it throws a SyntaxError unless the string is an integer literal) and
  \<^verbatim>\<open>computeRoutes\<close>, which throws on a transport or protocol failure (as does the
  construction of its arguments).
\<close>

record quote_env =
  amountInJSBI :: "unit reply"
  routes :: "routes_response reply"

text \<open>\<^verbatim>\<open>checkRoutesResponse\<close> (utils): what it prints and whether it returns.\<close>

definition checkRoutesResponse :: "routes_response \<Rightarrow> console list \<times> unit outcome" where
  "checkRoutesResponse response =
     (case response of
        RoutesInfos [] \<Rightarrow>
          ([LogRoutes response,
            Error ''No routes found or something is wrong with RPC / Jupiter!''], Exit 1)
      | RoutesInfos (r # rs) \<Rightarrow> ([], Return ())
      | _ \<Rightarrow> ([LogRoutes response, Error ''Something is wrong with RPC / Jupiter!''], Exit 1))"

text \<open>
  Reading \<^verbatim>\<open>routes.routesInfos\<close> and its first element throws a TypeError where there is
  nothing to read. After \<open>checkRoutesResponse\<close> has returned there always is.
\<close>

definition cannot_read :: thrown where
  "cannot_read = ErrorObject ''Cannot read properties of undefined''"

fun routesInfos :: "routes_response \<Rightarrow> thrown + RouteInfo list" where
  "routesInfos (RoutesInfos rs) = Inr rs"
| "routesInfos NoRoutesInfos = Inl cannot_read"
| "routesInfos NoResponse = Inl cannot_read"

text \<open>\<^verbatim>\<open>Number(route.outAmount.toString())\<close>.\<close>

definition outAmountNumber :: "RouteInfo \<Rightarrow> number" where
  "outAmountNumber route = Fin (of_int (outAmount route))"

subsection \<open>PingPongStrategy\<close>

definition pingpong_amountToTrade :: "BotCache \<Rightarrow> number" where
  "pingpong_amountToTrade cache =
     (if tradeSize_strategy (config cache) = ''cumulative''
      then (if sideBuy cache then tokenA (currentBalance cache) else tokenB (currentBalance cache))
      else (if sideBuy cache then tokenA (initialBalance cache) else tokenB (initialBalance cache)))"

definition pingpong_baseAmount :: "BotCache \<Rightarrow> number" where
  "pingpong_baseAmount cache =
     (if sideBuy cache then tokenB (lastBalance cache) else tokenA (lastBalance cache))"

text \<open>
  The \<^verbatim>\<open>try\<close> block of \<^verbatim>\<open>execute\<close>: the cache as the block leaves it, the lines it
  printed, and how it ends: it throws (\<open>Inl\<close>), runs to its end, or ends the process.
  What was written to the cache before a throw stays written.
\<close>

definition PingPongStrategy_try ::
  "BotCache \<Rightarrow> quote_env \<Rightarrow> BotCache \<times> console list \<times> (thrown + unit outcome)" where
  "PingPongStrategy_try cache env =
     (let i = iteration cache + 1;
          c1 = cache\<lparr>iteration := i, queue := (queue cache)(i \<mapsto> - 1)\<rparr>
      in case amountInJSBI env of
           Throws e \<Rightarrow> (c1, [], Inl e)
         | Returns amount \<Rightarrow>
        (case routes env of
           Throws e \<Rightarrow> (c1, [], Inl e)
         | Returns response \<Rightarrow>
        (case checkRoutesResponse response of
           (out, Exit code) \<Rightarrow> (c1, out, Inr (Exit code))
         | (out, Return checked) \<Rightarrow>
        (case routesInfos response of
           Inl e \<Rightarrow> (c1, out, Inl e)
         | Inr infos \<Rightarrow>
             (let c2 = c1\<lparr>availableRoutes :=
                            (if sideBuy c1
                             then (availableRoutes c1)\<lparr>buy := length infos\<rparr>
                             else (availableRoutes c1)\<lparr>sell := length infos\<rparr>),
                          queue := (queue c1)(i \<mapsto> 0)\<rparr>
              in case infos of
                   [] \<Rightarrow> (c2, out, Inl cannot_read)
                 | route # others \<Rightarrow>
                     (let simulatedProfit = profitOf (pingpong_baseAmount c2) (outAmountNumber route);
                          line = LogPingPongIteration i (sideBuy c2) simulatedProfit (length infos)
                      in if num_gt simulatedProfit (minPercProfit (config c2)) \<and> tradingEnabled c2
                         then (c2\<lparr>sideBuy := \<not> sideBuy c2\<rparr>,
                               out @ [line,
                                 LogProfit ''Trade would be executed with profit of'' simulatedProfit],
                               Inr (Return ()))
                         else (c2, out @ [line], Inr (Return ()))))))))"

text \<open>\<^verbatim>\<open>execute\<close>: the \<^verbatim>\<open>catch\<close> block prints what was thrown and the call returns.\<close>

definition PingPongStrategy_execute ::
  "BotCache \<Rightarrow> quote_env \<Rightarrow> BotCache \<times> console list \<times> unit outcome" where
  "PingPongStrategy_execute cache env =
     (case PingPongStrategy_try cache env of
        (c, out, Inr ending) \<Rightarrow> (c, out, ending)
      | (c, out, Inl e) \<Rightarrow>
          (c, out @ [ErrorThrown ''Error executing ping pong strategy:'' e], Return ()))"

subsection \<open>ArbitrageStrategy\<close>

definition arbitrage_amountToTrade :: "BotCache \<Rightarrow> number" where
  "arbitrage_amountToTrade cache =
     (if tradeSize_strategy (config cache) = ''cumulative''
      then tokenA (currentBalance cache) else tokenA (initialBalance cache))"

text \<open>
  The loop over the routes from index 1 on, with its two variables
  \<^verbatim>\<open>mostProfitableRoute\<close> and \<^verbatim>\<open>highestProfit\<close>, and the search as a whole, which
  starts them at the first route.
\<close>

fun scanRoutes :: "number \<Rightarrow> RouteInfo list \<Rightarrow> RouteInfo \<times> number \<Rightarrow> RouteInfo \<times> number" where
  "scanRoutes amountToTrade [] best = best"
| "scanRoutes amountToTrade (route # later) (mostProfitableRoute, highestProfit) =
     (if num_gt (profitOf amountToTrade (outAmountNumber route)) highestProfit
      then scanRoutes amountToTrade later
             (route, profitOf amountToTrade (outAmountNumber route))
      else scanRoutes amountToTrade later (mostProfitableRoute, highestProfit))"

definition mostProfitable :: "number \<Rightarrow> RouteInfo \<Rightarrow> RouteInfo list \<Rightarrow> RouteInfo \<times> number" where
  "mostProfitable amountToTrade first later =
     scanRoutes amountToTrade later (first, profitOf amountToTrade (outAmountNumber first))"

definition ArbitrageStrategy_try ::
  "BotCache \<Rightarrow> quote_env \<Rightarrow> BotCache \<times> console list \<times> (thrown + unit outcome)" where
  "ArbitrageStrategy_try cache env =
     (let i = iteration cache + 1;
          c1 = cache\<lparr>iteration := i, queue := (queue cache)(i \<mapsto> - 1)\<rparr>;
          amountToTrade = arbitrage_amountToTrade c1
      in case amountInJSBI env of
           Throws e \<Rightarrow> (c1, [], Inl e)
         | Returns amount \<Rightarrow>
        (case routes env of
           Throws e \<Rightarrow> (c1, [], Inl e)
         | Returns response \<Rightarrow>
        (case checkRoutesResponse response of
           (out, Exit code) \<Rightarrow> (c1, out, Inr (Exit code))
         | (out, Return checked) \<Rightarrow>
             (let c2 = c1\<lparr>queue := (queue c1)(i \<mapsto> 0)\<rparr>
              in case routesInfos response of
                   Inl e \<Rightarrow> (c2, out, Inl e)
                 | Inr [] \<Rightarrow>
                     (c2, out @ [Log ''Not enough routes found for arbitrage comparison''],
                      Inr (Return ()))
                 | Inr [only] \<Rightarrow>
                     (c2, out @ [Log ''Not enough routes found for arbitrage comparison''],
                      Inr (Return ()))
                 | Inr (first # second # others) \<Rightarrow>
                     (let highestProfit =
                            snd (mostProfitable amountToTrade first (second # others));
                          line = LogArbitrageIteration i highestProfit
                                   (length (first # second # others))
                      in if num_gt highestProfit (minPercProfit (config c2)) \<and> tradingEnabled c2
                         then (c2,
                               out @ [line,
                                 LogProfit ''Executing arbitrage with expected profit of''
                                   highestProfit],
                               Inr (Return ()))
                         else (c2, out @ [line], Inr (Return ())))))))"

definition ArbitrageStrategy_execute ::
  "BotCache \<Rightarrow> quote_env \<Rightarrow> BotCache \<times> console list \<times> unit outcome" where
  "ArbitrageStrategy_execute cache env =
     (case ArbitrageStrategy_try cache env of
        (c, out, Inr ending) \<Rightarrow> (c, out, ending)
      | (c, out, Inl e) \<Rightarrow>
          (c, out @ [ErrorThrown ''Error executing arbitrage strategy:'' e], Return ()))"

subsection \<open>Kinds of quote replies and a concrete cache\<close>

text \<open>
  The quote fails in transport when one of the two calls throws; it brings routes when
  both return and the response holds at least one route; otherwise it returned a
  response without a route.
\<close>

definition quote_throws :: "quote_env \<Rightarrow> bool" where
  "quote_throws env = (throws (amountInJSBI env) \<or> throws (routes env))"

definition quote_has_routes :: "quote_env \<Rightarrow> bool" where
  "quote_has_routes env =
     (\<not> throws (amountInJSBI env) \<and>
      (case routes env of Returns (RoutesInfos (r # rs)) \<Rightarrow> True | _ \<Rightarrow> False))"

definition quote_without_routes :: "quote_env \<Rightarrow> bool" where
  "quote_without_routes env = (\<not> quote_throws env \<and> \<not> quote_has_routes env)"

text \<open>
  A cache before its first cycle: iteration 0, an empty queue, the buying side and
  trading enabled, as \<^verbatim>\<open>BotCore.initializeCache\<close> sets them; the balances stand at 100
  units of each token and the minimum profit is half a percent.
\<close>

definition hundred :: balances where
  "hundred = \<lparr>tokenA = Fin 100, tokenB = Fin 100\<rparr>"

definition initialCache :: BotCache where
  "initialCache =
     \<lparr>iteration = 0, queue = Map.empty, sideBuy = True,
      initialBalance = hundred, currentBalance = hundred, lastBalance = hundred,
      availableRoutes = \<lparr>buy = 0, sell = 0\<rparr>, tradingEnabled = True,
      config = \<lparr>tradeSize_strategy = ''fixed'', minPercProfit = Fin (1 / 2)\<rparr>\<rparr>"

definition route_via :: "string \<Rightarrow> int \<Rightarrow> RouteInfo" where
  "route_via market out = \<lparr>outAmount = out, totalFees = None, marketInfos = [market]\<rparr>"

definition quote_of :: "RouteInfo list \<Rightarrow> quote_env" where
  "quote_of rs = \<lparr>amountInJSBI = Returns (), routes = Returns (RoutesInfos rs)\<rparr>"

definition quote_timeout :: quote_env where
  "quote_timeout =
     \<lparr>amountInJSBI = Returns (), routes = Throws (ErrorObject ''failed to get recent blockhash'')\<rparr>"

subsection \<open>The profit percentage and the flip, as the specification words them\<close>

text \<open>
  The profit percentage of the specification, \<^verbatim>\<open>(out - in) / in * 100\<close>, on exact
  numbers; the percentage of a route for a given input amount; and the other direction
  of the two-token strategy.
\<close>

definition spec_profitPercentage :: "rat \<Rightarrow> rat \<Rightarrow> rat" where
  "spec_profitPercentage amountIn amountOut = (amountOut - amountIn) / amountIn * 100"

definition percentageOf :: "rat \<Rightarrow> RouteInfo \<Rightarrow> rat" where
  "percentageOf amountIn route = spec_profitPercentage amountIn (of_int (outAmount route))"

definition flipped :: "direction \<Rightarrow> direction" where
  "flipped d = (if d = ping then pong else ping)"

section \<open>Submitting a transaction with retries (utils/transaction.ts)\<close>

text \<open>
  \<^verbatim>\<open>sendTransactionWithRetry\<close>. The submitter \<^verbatim>\<open>sendAndConfirmTransaction\<close> is a
  collaborator: \<open>send k\<close> is its reply to the call number \<open>k\<close>, counted from 0, which is
  the value of \<^verbatim>\<open>retries\<close> when the call is made. What the function does besides
  returning is kept as a list: the submissions, the retry messages it prints and the
  delays it waits for, in milliseconds. The loop stops because \<^verbatim>\<open>retries\<close> grows up
  to \<^verbatim>\<open>maxRetries\<close>; \<open>Inl\<close> is the error the function throws.
\<close>

datatype retry_effect = SendAndConfirm nat | RetryLog nat int | Wait nat

function sendLoop ::
  "(nat \<Rightarrow> string reply) \<Rightarrow> int \<Rightarrow> nat \<Rightarrow> retry_effect list \<times> (thrown + string)" where
  "sendLoop send maxRetries retries =
     (if int retries < maxRetries
      then (case send retries of
              Returns signature \<Rightarrow> ([SendAndConfirm retries], Inr signature)
            | Throws e \<Rightarrow>
                (if int (retries + 1) \<ge> maxRetries
                 then ([SendAndConfirm retries], Inl e)
                 else (case sendLoop send maxRetries (retries + 1) of
                         (effects, result) \<Rightarrow>
                           (SendAndConfirm retries # RetryLog (retries + 1) maxRetries
                              # Wait 1000 # effects,
                            result))))
      else ([], Inr []))"
  by pat_completeness auto
termination
  by (relation "measure (\<lambda>(send, maxRetries, retries). nat (maxRetries - int retries))") auto

definition sendTransactionWithRetry ::
  "(nat \<Rightarrow> string reply) \<Rightarrow> int option \<Rightarrow> retry_effect list \<times> (thrown + string)" where
  "sendTransactionWithRetry send maxRetries =
     sendLoop send (case maxRetries of None \<Rightarrow> 3 | Some m \<Rightarrow> m) 0"

fun is_attempt :: "retry_effect \<Rightarrow> bool" where
  "is_attempt (SendAndConfirm k) = True"
| "is_attempt _ = False"

definition attempts :: "retry_effect list \<Rightarrow> nat" where
  "attempts effects = length (filter is_attempt effects)"

fun spaced :: "retry_effect list \<Rightarrow> bool" where
  "spaced [] = True"
| "spaced [SendAndConfirm k] = True"
| "spaced (SendAndConfirm k # RetryLog n m # Wait ms # rest) =
     (ms = 1000 \<and> rest \<noteq> [] \<and> spaced rest)"
| "spaced _ = False"

declare sendLoop.simps [simp del]

text \<open>A submitter that fails twice and then succeeds.\<close>

definition flaky :: "nat \<Rightarrow> string reply" where
  "flaky k = (if k < 2 then Throws (ErrorObject ''Blockhash not found'') else Returns ''5sig'')"

section \<open>EventEmitter (core/EventEmitter.ts)\<close>

text \<open>
  The emitter holds, per event name, the registered callbacks in registration order. A
  callback is known by its identity (the code compares function references). What a
  callback does when called is a parameter \<open>call\<close>: from the arguments and the current
  state (the emitter itself, which it may change, and the rest of the world) it gives
  the new state and the value it throws, if any. \<open>emit\<close> walks through a copy of the
  list taken before the first call; the model keeps what it did as a list of effects.
  It has no throwing outcome: every value a callback throws goes to the console.
\<close>

type_synonym callback = nat

record 'w emitter =
  events :: "string \<rightharpoonup> callback list"
  world :: 'w

datatype emit_effect = Invoked callback | ListenerError string thrown

definition on :: "string \<Rightarrow> callback \<Rightarrow> 'w emitter \<Rightarrow> 'w emitter" where
  "on event callback em =
     em\<lparr>events := (events em)
            (event \<mapsto> (case events em event of None \<Rightarrow> [] | Some callbacks \<Rightarrow> callbacks)
                        @ [callback])\<rparr>"

definition off :: "string \<Rightarrow> callback \<Rightarrow> 'w emitter \<Rightarrow> 'w emitter" where
  "off event callback em =
     (case events em event of
        None \<Rightarrow> em
      | Some callbacks \<Rightarrow>
          if callback \<in> set callbacks
          then (if remove1 callback callbacks = []
                then em\<lparr>events := (events em)(event := None)\<rparr>
                else em\<lparr>events := (events em)(event \<mapsto> remove1 callback callbacks)\<rparr>)
          else em)"

definition listenerCount :: "string \<Rightarrow> 'w emitter \<Rightarrow> nat" where
  "listenerCount event em =
     (case events em event of None \<Rightarrow> 0 | Some callbacks \<Rightarrow> length callbacks)"

fun emit_loop ::
  "(callback \<Rightarrow> 'a \<Rightarrow> 'w emitter \<Rightarrow> 'w emitter \<times> thrown option) \<Rightarrow> string \<Rightarrow> 'a
     \<Rightarrow> callback list \<Rightarrow> 'w emitter \<Rightarrow> 'w emitter \<times> emit_effect list" where
  "emit_loop call event args [] em = (em, [])"
| "emit_loop call event args (callback # callbacks) em =
     (case call callback args em of
        (em', None) \<Rightarrow>
          (case emit_loop call event args callbacks em' of
             (em'', effects) \<Rightarrow> (em'', Invoked callback # effects))
      | (em', Some err) \<Rightarrow>
          (case emit_loop call event args callbacks em' of
             (em'', effects) \<Rightarrow>
               (em'', Invoked callback # ListenerError event err # effects)))"

definition emit ::
  "(callback \<Rightarrow> 'a \<Rightarrow> 'w emitter \<Rightarrow> 'w emitter \<times> thrown option) \<Rightarrow> string \<Rightarrow> 'a
     \<Rightarrow> 'w emitter \<Rightarrow> 'w emitter \<times> emit_effect list" where
  "emit call event args em =
     (case events em event of
        None \<Rightarrow> (em, [])
      | Some callbacks \<Rightarrow> emit_loop call event args callbacks em)"

fun invoked :: "emit_effect list \<Rightarrow> callback list" where
  "invoked [] = []"
| "invoked (Invoked callback # effects) = callback # invoked effects"
| "invoked (ListenerError event err # effects) = invoked effects"

fun logged :: "emit_effect list \<Rightarrow> thrown list" where
  "logged [] = []"
| "logged (Invoked callback # effects) = logged effects"
| "logged (ListenerError event err # effects) = err # logged effects"

definition listeners :: "string \<Rightarrow> 'w emitter \<Rightarrow> callback list" where
  "listeners event em = (case events em event of None \<Rightarrow> [] | Some callbacks \<Rightarrow> callbacks)"

text \<open>
  What \<open>emit\<close> called and what it printed, read off the effects; the listeners of an
  event; and the values the callbacks of a list throw when called one after the other.
\<close>

fun raised ::
  "(callback \<Rightarrow> 'a \<Rightarrow> 'w emitter \<Rightarrow> 'w emitter \<times> thrown option) \<Rightarrow> 'a \<Rightarrow> callback list
     \<Rightarrow> 'w emitter \<Rightarrow> thrown list" where
  "raised call args [] em = []"
| "raised call args (callback # callbacks) em =
     (case snd (call callback args em) of
        None \<Rightarrow> raised call args callbacks (fst (call callback args em))
      | Some err \<Rightarrow> err # raised call args callbacks (fst (call callback args em)))"

text \<open>
  Three listeners that record their call in the world; the second also unregisters the
  third and then throws.
\<close>

definition noisy :: "callback \<Rightarrow> unit \<Rightarrow> callback list emitter
    \<Rightarrow> callback list emitter \<times> thrown option" where
  "noisy callback args em =
     (if callback = 2
      then (off ''trade:complete'' 3 (em\<lparr>world := world em @ [callback]\<rparr>),
            Some (ErrorObject ''listener failed''))
      else (em\<lparr>world := world em @ [callback]\<rparr>, None))"

definition three_listeners :: "callback list emitter" where
  "three_listeners =
     on ''trade:complete'' 3 (on ''trade:complete'' 2 (on ''trade:complete'' 1
       \<lparr>events = Map.empty, world = []\<rparr>))"

section \<open>Application lifecycle (core/app.ts)\<close>

text \<open>
  The application holds its plugins by name, in registration order, and a running flag.
  A plugin is its version and what its \<^verbatim>\<open>start()\<close> and \<^verbatim>\<open>stop()\<close> do when awaited.
  The effects of \<^verbatim>\<open>start\<close> and \<^verbatim>\<open>stop\<close> are the calls of the plugins' methods, the
  events handed to the event bus and the console lines; what the listeners of the bus do
  with an event is outside this model.
\<close>

datatype EventType =
    SYSTEM_READY | SYSTEM_SHUTDOWN | SYSTEM_ERROR
  | TRADE_START | TRADE_COMPLETE | TRADE_ERROR | SIMULATION_COMPLETE
  | CONFIG_LOADED | CONFIG_UPDATED
  | UI_UPDATE | UI_KEYPRESS
  | PLUGIN_LOADED | PLUGIN_STARTED | PLUGIN_STOPPED | PLUGIN_ERROR

datatype payload = NoData | Named string | NamedError string string

record Plugin =
  version :: string
  start_reply :: "unit reply"
  stop_reply :: "unit reply"

datatype app_effect =
    Start string
  | Stop string
  | Emit EventType payload
  | Print string
  | PrintNamed string string
  | PrintError string string thrown

record Application =
  plugins :: "(string \<times> Plugin) list"
  isRunning :: bool

fun start_plugins :: "(string \<times> Plugin) list \<Rightarrow> app_effect list" where
  "start_plugins [] = []"
| "start_plugins ((name, plugin) # rest) =
     Start name #
     (case start_reply plugin of
        Returns finished \<Rightarrow>
          [Emit PLUGIN_STARTED (Named name), PrintNamed ''Plugin started'' name]
      | Throws err \<Rightarrow>
          [PrintError ''Failed to start plugin'' name err,
           Emit PLUGIN_ERROR (NamedError name (error_text err))])
     @ start_plugins rest"

definition Application_start :: "Application \<Rightarrow> Application \<times> app_effect list" where
  "Application_start app =
     (if isRunning app then (app, [Print ''Application is already running''])
      else (app\<lparr>isRunning := True\<rparr>,
            Print ''Starting application...'' # start_plugins (plugins app)
              @ [Emit SYSTEM_READY NoData, Print ''Application started'']))"

fun stop_plugins :: "(string \<times> Plugin) list \<Rightarrow> app_effect list" where
  "stop_plugins [] = []"
| "stop_plugins ((name, plugin) # rest) =
     Stop name #
     (case stop_reply plugin of
        Returns finished \<Rightarrow>
          [Emit PLUGIN_STOPPED (Named name), PrintNamed ''Plugin stopped'' name]
      | Throws err \<Rightarrow>
          [PrintError ''Failed to stop plugin'' name err,
           Emit PLUGIN_ERROR (NamedError name (error_text err))])
     @ stop_plugins rest"

definition Application_stop :: "Application \<Rightarrow> Application \<times> app_effect list" where
  "Application_stop app =
     (if \<not> isRunning app then (app, [Print ''Application is not running''])
      else (app\<lparr>isRunning := False\<rparr>,
            Print ''Stopping application...'' # stop_plugins (plugins app)
              @ [Emit SYSTEM_SHUTDOWN NoData, Print ''Application stopped'']))"

fun started :: "app_effect list \<Rightarrow> string list" where
  "started [] = []"
| "started (Start name # effects) = name # started effects"
| "started (other # effects) = started effects"

fun stopped :: "app_effect list \<Rightarrow> string list" where
  "stopped [] = []"
| "stopped (Stop name # effects) = name # stopped effects"
| "stopped (other # effects) = stopped effects"

text \<open>Three plugins; the second one fails to start and to stop.\<close>

definition sample_plugins :: "(string \<times> Plugin) list" where
  "sample_plugins =
     [(''logger'', \<lparr>version = ''1.0.0'', start_reply = Returns (), stop_reply = Returns ()\<rparr>),
      (''telegram'', \<lparr>version = ''0.2.0'',
                      start_reply = Throws (ErrorObject ''missing bot token''),
                      stop_reply = Throws (OtherValue ''not started'')\<rparr>),
      (''metrics'', \<lparr>version = ''1.1.0'', start_reply = Returns (), stop_reply = Returns ()\<rparr>)]"

section \<open>Properties\<close>

subsection \<open>Profit calculation\<close>

lemma calculateProfit_numbers:
  "calculateProfit pf (Num a) (Num b) = profitOf a b"
  by (simp add: calculateProfit_def profitOf_def)

lemma profitOf_Fin:
  "0 < a \<Longrightarrow> profitOf (Fin a) (Fin b) = Fin ((b - a) / a * 100)"
  by (simp add: profitOf_def calculateProfit_def)

text \<open>
  C10. For every base amount that is less than or equal to zero (as a number, after
  the coercion of a string argument), \<open>calculateProfit\<close> returns 0 whatever the new
  amount is, so the division by the base is never reached with a non-positive base.
\<close>

theorem calculateProfit_nonpositive_base:
  "num_le (coerce pf baseAmount) (Fin 0) \<Longrightarrow> calculateProfit pf baseAmount newAmount = Fin 0"
  by (simp add: calculateProfit_def)

theorem calculateProfit_nonpositive_base_witness:
  "num_le (coerce (\<lambda>s. NaN) (Num (Fin 0))) (Fin 0)
   \<and> calculateProfit (\<lambda>s. NaN) (Num (Fin 0)) (Num (Fin 101)) = Fin 0
   \<and> calculateProfit (\<lambda>s. NaN) (Num NInf) (Str ''abc'') = Fin 0"
  using calculateProfit_nonpositive_base [of "\<lambda>s. NaN" "Num (Fin 0)" "Num (Fin 101)"]
    calculateProfit_nonpositive_base [of "\<lambda>s. NaN" "Num NInf" "Str ''abc''"]
  by simp

subsection \<open>One call of execute\<close>

lemma pingpong_try_isl:
  "isl (pingpong_try st i t a (call_env c)) = pingpong_fails c"
  by (auto simp: pingpong_try_def pingpong_fails_def Let_def
      split: reply.splits option.splits list.splits)

lemma pingpong_try_state:
  "pingpong_try st i t a env = Inr (st', r) \<Longrightarrow>
     errorCount st' = errorCount st \<and> wallet st' = wallet st"
  by (auto simp: pingpong_try_def Let_def split: reply.splits option.splits list.splits)

lemma pingpong_try_success:
  "pingpong_try st i t a (call_env c) = Inr (st', r) \<Longrightarrow> success r = pingpong_trades c"
  by (auto simp: pingpong_try_def pingpong_trades_def failed_def Let_def
      split: reply.splits option.splits list.splits)

lemma pingpong_call_cases:
  assumes "wallet st"
  shows "(pingpong_fails c \<longrightarrow>
            (\<exists>out. pingpong_call st c =
               (st\<lparr>errorCount := errorCount st + 1\<rparr>, out,
                if errorCount st < 100
                then Return (failed (call_amount c)
                       (error_text (projl (pingpong_try st (call_inputToken c) (call_outputToken c) (call_amount c) (call_env c)))))
                else Exit 1)))
       \<and> (\<not> pingpong_fails c \<longrightarrow>
            (\<exists>st' r. pingpong_call st c = (st', [], Return r) \<and> errorCount st' = errorCount st
                \<and> wallet st' \<and> success r = pingpong_trades c))"
proof (cases "pingpong_try st (call_inputToken c) (call_outputToken c) (call_amount c) (call_env c)")
  case (Inl e)
  then have f: "pingpong_fails c" using pingpong_try_isl[of st _ _ _ c] by (metis sum.disc(1))
  show ?thesis using Inl f assms
    by (auto simp: pingpong_call_def pingpong_execute_def Let_def)
next
  case (Inr p)
  obtain st' r where p: "p = (st', r)" by (cases p)
  from Inr have f: "\<not> pingpong_fails c" using pingpong_try_isl[of st _ _ _ c] by (metis sum.disc(2))
  show ?thesis using Inr p f assms pingpong_try_state[of st _ _ _ _ st' r] pingpong_try_success[of st _ _ _ c st' r]
    by (auto simp: pingpong_call_def pingpong_execute_def Let_def)
qed

lemma arbitrage_try_isl:
  "isl (arbitrage_try i t a (call_env c)) = arbitrage_fails c"
  by (auto simp: arbitrage_try_def arbitrage_fails_def Let_def
      split: reply.splits option.splits list.splits)

lemma arbitrage_try_success:
  "arbitrage_try i t a (call_env c) = Inr r \<Longrightarrow> success r = arbitrage_trades c"
  by (auto simp: arbitrage_try_def arbitrage_trades_def failed_def Let_def
      split: reply.splits option.splits list.splits)

lemma arbitrage_call_cases:
  assumes "jupiter st"
  shows "(arbitrage_fails c \<longrightarrow>
            (\<exists>out. arbitrage_call st c =
               (st\<lparr>arb_errorCount := arb_errorCount st + 1\<rparr>, out,
                if arb_errorCount st < 100
                then Return (failed (call_amount c)
                       (error_text (projl (arbitrage_try (call_inputToken c) (call_outputToken c) (call_amount c) (call_env c)))))
                else Exit 1)))
       \<and> (\<not> arbitrage_fails c \<longrightarrow>
            (\<exists>r. arbitrage_call st c = (st, [], Return r) \<and> success r = arbitrage_trades c))"
proof (cases "arbitrage_try (call_inputToken c) (call_outputToken c) (call_amount c) (call_env c)")
  case (Inl e)
  then have f: "arbitrage_fails c" using arbitrage_try_isl[of _ _ _ c] by (metis sum.disc(1))
  show ?thesis using Inl f assms
    by (auto simp: arbitrage_call_def arbitrage_execute_def Let_def)
next
  case (Inr r)
  then have f: "\<not> arbitrage_fails c" using arbitrage_try_isl[of _ _ _ c] by (metis sum.disc(2))
  show ?thesis using Inr f assms arbitrage_try_success[of _ _ _ c r]
    by (auto simp: arbitrage_call_def arbitrage_execute_def Let_def)
qed

subsection \<open>Sequences of calls\<close>

lemma run_append_returns:
  "run exec s xs = (s', map Return rs) \<Longrightarrow>
     run exec s (xs @ ys) = (case run exec s' ys of (s'', os) \<Rightarrow> (s'', map Return rs @ os))"
proof (induction xs arbitrary: s rs)
  case Nil
  then show ?case by (auto split: prod.splits)
next
  case (Cons x xs)
  obtain s1 out o1 where e: "exec s x = (s1, out, o1)" by (cases "exec s x") auto
  show ?case
  proof (cases o1)
    case (Exit code)
    with Cons.prems e show ?thesis by (cases rs) auto
  next
    case (Return r)
    obtain s2 os where r2: "run exec s1 xs = (s2, os)" by (cases "run exec s1 xs")
    from Cons.prems e Return r2 have "s2 = s'" and os: "Return r # os = map Return rs" by auto
    then obtain rs' where rs: "rs = r # rs'" and os': "os = map Return rs'" by (cases rs) auto
    from Cons.IH[of s1 rs'] r2 \<open>s2 = s'\<close> os'
    have "run exec s1 (xs @ ys) = (case run exec s' ys of (s'', os) \<Rightarrow> (s'', map Return rs' @ os))"
      by simp
    with e Return rs show ?thesis by (auto split: prod.splits)
  qed
qed

lemma run_below_ceiling:
  assumes ok: "\<And>s c. ready s \<Longrightarrow> \<not> fails c \<Longrightarrow>
                 \<exists>s' out r. exec s c = (s', out, Return r) \<and> ready s' \<and> cnt s' = cnt s"
    and bad: "\<And>s c. ready s \<Longrightarrow> fails c \<Longrightarrow> cnt s < 100 \<Longrightarrow>
                 \<exists>s' out r. exec s c = (s', out, Return r) \<and> ready s' \<and> cnt s' = Suc (cnt s)"
  shows "ready s \<Longrightarrow> cnt s + length (filter fails cs) \<le> (100::nat) \<Longrightarrow>
     \<exists>s' rs. run exec s cs = (s', map Return rs) \<and> length rs = length cs \<and> ready s'
        \<and> cnt s' = cnt s + length (filter fails cs)"
proof (induction cs arbitrary: s)
  case Nil
  then show ?case by simp
next
  case (Cons c cs)
  have "\<exists>s1 out r. exec s c = (s1, out, Return r) \<and> ready s1
          \<and> cnt s1 = cnt s + (if fails c then 1 else 0)"
  proof (cases "fails c")
    case True
    with Cons.prems have "cnt s < 100" by simp
    from bad[OF Cons.prems(1) True this] True show ?thesis by auto
  next
    case False
    from ok[OF Cons.prems(1) False] False show ?thesis by auto
  qed
  then obtain s1 out r where e: "exec s c = (s1, out, Return r)" and r1: "ready s1"
    and c1: "cnt s1 = cnt s + (if fails c then 1 else 0)" by blast
  from Cons.prems c1 have "cnt s1 + length (filter fails cs) \<le> 100" by (simp split: if_splits)
  from Cons.IH[OF r1 this] obtain s' rs where
    "run exec s1 cs = (s', map Return rs)" "length rs = length cs" "ready s'"
    "cnt s' = cnt s1 + length (filter fails cs)" by blast
  with e c1 show ?case
    by (intro exI[of _ s'] exI[of _ "r # rs"]) (simp split: if_splits)
qed

lemma run_at_ceiling:
  assumes ok: "\<And>s c. ready s \<Longrightarrow> \<not> fails c \<Longrightarrow>
                 \<exists>s' out r. exec s c = (s', out, Return r) \<and> ready s' \<and> cnt s' = cnt s"
    and bad: "\<And>s c. ready s \<Longrightarrow> fails c \<Longrightarrow> cnt s < 100 \<Longrightarrow>
                 \<exists>s' out r. exec s c = (s', out, Return r) \<and> ready s' \<and> cnt s' = Suc (cnt s)"
    and trip: "\<And>s c. ready s \<Longrightarrow> fails c \<Longrightarrow> 100 \<le> cnt s \<Longrightarrow>
                 \<exists>s' out. exec s c = (s', out, Exit 1)"
    and "ready s" "cnt s + length (filter fails pre) = (100::nat)" "fails c"
  shows "\<exists>rs. snd (run exec s (pre @ c # post)) = map Return rs @ [Exit 1]
            \<and> length rs = length pre"
proof -
  from run_below_ceiling[of ready fails exec cnt s pre, OF ok bad] assms(4,5)
  obtain s' rs where r: "run exec s pre = (s', map Return rs)" "length rs = length pre"
    "ready s'" "cnt s' = 100" by auto
  from trip[OF r(3) assms(6)] r(4) obtain s'' out where "exec s' c = (s'', out, Exit 1)" by auto
  with run_append_returns[OF r(1), of "c # post"] r(2) show ?thesis by auto
qed

lemma pingpong_run_below:
  "wallet st \<Longrightarrow> errorCount st + length (filter pingpong_fails cs) \<le> 100 \<Longrightarrow>
     \<exists>s' rs. run pingpong_call st cs = (s', map Return rs) \<and> length rs = length cs \<and> wallet s'
        \<and> errorCount s' = errorCount st + length (filter pingpong_fails cs)"
proof (rule run_below_ceiling[of wallet pingpong_fails pingpong_call errorCount], goal_cases)
  case (1 s c) then show ?case using pingpong_call_cases[of s c] by auto
next
  case (2 s c) then show ?case using pingpong_call_cases[of s c] by auto
qed

lemma pingpong_run_trip:
  "wallet st \<Longrightarrow> errorCount st + length (filter pingpong_fails pre) = 100 \<Longrightarrow> pingpong_fails c \<Longrightarrow>
     \<exists>rs. snd (run pingpong_call st (pre @ c # post)) = map Return rs @ [Exit 1]
            \<and> length rs = length pre"
proof (rule run_at_ceiling[of wallet pingpong_fails pingpong_call errorCount], goal_cases)
  case (1 s c) then show ?case using pingpong_call_cases[of s c] by auto
next
  case (2 s c) then show ?case using pingpong_call_cases[of s c] by auto
next
  case (3 s c) then show ?case using pingpong_call_cases[of s c] by auto
qed

lemma arbitrage_run_below:
  "jupiter st \<Longrightarrow> arb_errorCount st + length (filter arbitrage_fails cs) \<le> 100 \<Longrightarrow>
     \<exists>s' rs. run arbitrage_call st cs = (s', map Return rs) \<and> length rs = length cs \<and> jupiter s'
        \<and> arb_errorCount s' = arb_errorCount st + length (filter arbitrage_fails cs)"
proof (rule run_below_ceiling[of jupiter arbitrage_fails arbitrage_call arb_errorCount], goal_cases)
  case (1 s c) then show ?case using arbitrage_call_cases[of s c] by auto
next
  case (2 s c) then show ?case using arbitrage_call_cases[of s c] by auto
qed

lemma arbitrage_run_trip:
  "jupiter st \<Longrightarrow> arb_errorCount st + length (filter arbitrage_fails pre) = 100 \<Longrightarrow> arbitrage_fails c \<Longrightarrow>
     \<exists>rs. snd (run arbitrage_call st (pre @ c # post)) = map Return rs @ [Exit 1]
            \<and> length rs = length pre"
proof (rule run_at_ceiling[of jupiter arbitrage_fails arbitrage_call arb_errorCount], goal_cases)
  case (1 s c) then show ?case using arbitrage_call_cases[of s c] by auto
next
  case (2 s c) then show ?case using arbitrage_call_cases[of s c] by auto
next
  case (3 s c) then show ?case using arbitrage_call_cases[of s c] by auto
qed


lemma pingpong_bad_fails: "pingpong_fails pingpong_bad" "\<not> pingpong_trades pingpong_bad"
  by (simp_all add: pingpong_fails_def pingpong_trades_def pingpong_bad_def swap_of_def)

lemma pingpong_good_trades: "\<not> pingpong_fails pingpong_good" "pingpong_trades pingpong_good"
  by (simp_all add: pingpong_fails_def pingpong_trades_def pingpong_good_def swap_of_def)

lemma arbitrage_bad_fails: "arbitrage_fails arbitrage_bad" "\<not> arbitrage_trades arbitrage_bad"
  by (simp_all add: arbitrage_fails_def arbitrage_trades_def arbitrage_bad_def swap_of_def)

lemma arbitrage_good_trades: "\<not> arbitrage_fails arbitrage_good" "arbitrage_trades arbitrage_good"
  by (simp_all add: arbitrage_fails_def arbitrage_trades_def arbitrage_good_def swap_of_def)


lemma spec_count_replicate:
  "fails c \<Longrightarrow> spec_consecutiveErrorCount fails trades n (replicate k c) = n + k"
  by (induction k arbitrary: n) auto

lemma spec_count_append:
  "spec_consecutiveErrorCount fails trades n (xs @ ys)
     = spec_consecutiveErrorCount fails trades (spec_consecutiveErrorCount fails trades n xs) ys"
  by (induction xs arbitrary: n) auto





subsection \<open>One cycle of a cache strategy\<close>

lemma not_throws: "(\<not> throws x) = (\<exists>v. x = Returns v)"
  by (cases x) auto

lemma checkRoutesResponse_cases:
  "checkRoutesResponse response =
     (case response of
        RoutesInfos (r # rs) \<Rightarrow> ([], Return ())
      | RoutesInfos [] \<Rightarrow> ([LogRoutes response,
            Error ''No routes found or something is wrong with RPC / Jupiter!''], Exit 1)
      | _ \<Rightarrow> ([LogRoutes response, Error ''Something is wrong with RPC / Jupiter!''], Exit 1))"
  by (simp add: checkRoutesResponse_def split: routes_response.splits list.splits)

lemma checkRoutesResponse_exit:
  "\<not> (\<exists>r rs. response = RoutesInfos (r # rs)) \<Longrightarrow>
     snd (checkRoutesResponse response) = Exit 1
     \<and> fst (checkRoutesResponse response) \<noteq> []"
  by (auto simp: checkRoutesResponse_def split: routes_response.splits list.splits)

lemma pingpong_cycle_throws:
  "quote_throws env \<Longrightarrow>
     \<exists>e. PingPongStrategy_execute cache env =
       (cache\<lparr>iteration := iteration cache + 1,
              queue := (queue cache)(iteration cache + 1 \<mapsto> - 1)\<rparr>,
        [ErrorThrown ''Error executing ping pong strategy:'' e], Return ())"
  by (auto simp: quote_throws_def PingPongStrategy_execute_def PingPongStrategy_try_def Let_def
      split: reply.splits)

lemma arbitrage_cycle_throws:
  "quote_throws env \<Longrightarrow>
     \<exists>e. ArbitrageStrategy_execute cache env =
       (cache\<lparr>iteration := iteration cache + 1,
              queue := (queue cache)(iteration cache + 1 \<mapsto> - 1)\<rparr>,
        [ErrorThrown ''Error executing arbitrage strategy:'' e], Return ())"
  by (auto simp: quote_throws_def ArbitrageStrategy_execute_def ArbitrageStrategy_try_def Let_def
      split: reply.splits)

lemma quote_without_routes_response:
  "quote_without_routes env \<Longrightarrow>
     \<exists>u response. amountInJSBI env = Returns u \<and> routes env = Returns response
        \<and> \<not> (\<exists>r rs. response = RoutesInfos (r # rs))"
  by (cases "amountInJSBI env")
     (auto simp: quote_without_routes_def quote_throws_def quote_has_routes_def
      split: reply.splits routes_response.splits list.splits)

lemma pingpong_cycle_without_routes:
  assumes "quote_without_routes env"
  shows "\<exists>out. PingPongStrategy_execute cache env =
       (cache\<lparr>iteration := iteration cache + 1,
              queue := (queue cache)(iteration cache + 1 \<mapsto> - 1)\<rparr>, out, Exit 1)
       \<and> out \<noteq> []"
proof -
  from quote_without_routes_response[OF assms] obtain u response where
    r: "amountInJSBI env = Returns u" "routes env = Returns response"
       "\<not> (\<exists>r rs. response = RoutesInfos (r # rs))" by blast
  obtain out ending where c: "checkRoutesResponse response = (out, ending)"
    by (cases "checkRoutesResponse response")
  with checkRoutesResponse_exit[OF r(3)] have "ending = Exit 1" "out \<noteq> []" by auto
  with r c show ?thesis
    by (simp add: PingPongStrategy_execute_def PingPongStrategy_try_def Let_def)
qed

lemma arbitrage_cycle_without_routes:
  assumes "quote_without_routes env"
  shows "\<exists>out. ArbitrageStrategy_execute cache env =
       (cache\<lparr>iteration := iteration cache + 1,
              queue := (queue cache)(iteration cache + 1 \<mapsto> - 1)\<rparr>, out, Exit 1)
       \<and> out \<noteq> []"
proof -
  from quote_without_routes_response[OF assms] obtain u response where
    r: "amountInJSBI env = Returns u" "routes env = Returns response"
       "\<not> (\<exists>r rs. response = RoutesInfos (r # rs))" by blast
  obtain out ending where c: "checkRoutesResponse response = (out, ending)"
    by (cases "checkRoutesResponse response")
  with checkRoutesResponse_exit[OF r(3)] have "ending = Exit 1" "out \<noteq> []" by auto
  with r c show ?thesis
    by (simp add: ArbitrageStrategy_execute_def ArbitrageStrategy_try_def Let_def)
qed

lemma quote_has_routes_response:
  "quote_has_routes env \<Longrightarrow>
     \<exists>u r rs. amountInJSBI env = Returns u \<and> routes env = Returns (RoutesInfos (r # rs))"
  by (cases "amountInJSBI env")
     (auto simp: quote_has_routes_def split: reply.splits routes_response.splits list.splits)

lemma pingpong_cycle_with_routes:
  assumes "amountInJSBI env = Returns u" "routes env = Returns (RoutesInfos (route # others))"
  shows "\<exists>out. PingPongStrategy_execute cache env =
       (cache\<lparr>iteration := iteration cache + 1,
              queue := (queue cache)(iteration cache + 1 \<mapsto> 0),
              availableRoutes :=
                (if sideBuy cache
                 then (availableRoutes cache)\<lparr>buy := Suc (length others)\<rparr>
                 else (availableRoutes cache)\<lparr>sell := Suc (length others)\<rparr>),
              sideBuy :=
                (if num_gt (profitOf (pingpong_baseAmount cache) (outAmountNumber route))
                      (minPercProfit (config cache)) \<and> tradingEnabled cache
                 then \<not> sideBuy cache else sideBuy cache)\<rparr>,
        out, Return ())"
  using assms
  by (auto simp: PingPongStrategy_execute_def PingPongStrategy_try_def Let_def
      checkRoutesResponse_def pingpong_baseAmount_def)

lemma arbitrage_cycle_with_routes:
  assumes "amountInJSBI env = Returns u" "routes env = Returns (RoutesInfos (route # others))"
  shows "\<exists>out. ArbitrageStrategy_execute cache env =
       (cache\<lparr>iteration := iteration cache + 1,
              queue := (queue cache)(iteration cache + 1 \<mapsto> 0)\<rparr>,
        out, Return ())"
  using assms
  by (cases others)
     (auto simp: ArbitrageStrategy_execute_def ArbitrageStrategy_try_def Let_def
      checkRoutesResponse_def)

lemma quote_kinds:
  "quote_throws env \<or> quote_without_routes env \<or> quote_has_routes env"
  "\<not> (quote_throws env \<and> quote_has_routes env)"
  by (auto simp: quote_without_routes_def quote_throws_def quote_has_routes_def
      split: reply.splits)

lemma pingpong_cycle_queue:
  "iteration (fst (PingPongStrategy_execute cache env)) = iteration cache + 1
   \<and> queue (fst (PingPongStrategy_execute cache env)) (iteration cache + 1)
       = Some (if quote_has_routes env then 0 else - 1)
   \<and> (\<forall>k. k \<noteq> iteration cache + 1 \<longrightarrow>
         queue (fst (PingPongStrategy_execute cache env)) k = queue cache k)
   \<and> (quote_throws env \<longrightarrow> snd (snd (PingPongStrategy_execute cache env)) = Return ())"
proof -
  consider (t) "quote_throws env" | (w) "quote_without_routes env" | (h) "quote_has_routes env"
    using quote_kinds(1) by blast
  then show ?thesis
  proof cases
    case t
    with pingpong_cycle_throws[OF t, of cache] quote_kinds(2)[of env] show ?thesis by auto
  next
    case w
    with pingpong_cycle_without_routes[OF w, of cache] show ?thesis
      by (auto simp: quote_without_routes_def)
  next
    case h
    from quote_has_routes_response[OF h] obtain u r rs where
      "amountInJSBI env = Returns u" "routes env = Returns (RoutesInfos (r # rs))" by blast
    from pingpong_cycle_with_routes[OF this, of cache] h quote_kinds(2)[of env]
    show ?thesis by auto
  qed
qed

lemma arbitrage_cycle_queue:
  "iteration (fst (ArbitrageStrategy_execute cache env)) = iteration cache + 1
   \<and> queue (fst (ArbitrageStrategy_execute cache env)) (iteration cache + 1)
       = Some (if quote_has_routes env then 0 else - 1)
   \<and> (\<forall>k. k \<noteq> iteration cache + 1 \<longrightarrow>
         queue (fst (ArbitrageStrategy_execute cache env)) k = queue cache k)
   \<and> (quote_throws env \<longrightarrow> snd (snd (ArbitrageStrategy_execute cache env)) = Return ())"
proof -
  consider (t) "quote_throws env" | (w) "quote_without_routes env" | (h) "quote_has_routes env"
    using quote_kinds(1) by blast
  then show ?thesis
  proof cases
    case t
    with arbitrage_cycle_throws[OF t, of cache] quote_kinds(2)[of env] show ?thesis by auto
  next
    case w
    with arbitrage_cycle_without_routes[OF w, of cache] show ?thesis
      by (auto simp: quote_without_routes_def)
  next
    case h
    from quote_has_routes_response[OF h] obtain u r rs where
      "amountInJSBI env = Returns u" "routes env = Returns (RoutesInfos (r # rs))" by blast
    from arbitrage_cycle_with_routes[OF this, of cache] h quote_kinds(2)[of env]
    show ?thesis by auto
  qed
qed

text \<open>
  C5 (as amended). Every cycle of either cache strategy increments the iteration counter
  by exactly 1 and writes the status of the new iteration, and of no other, into the
  queue: first -1 (pending), then 0 once the quote has come back with at least one
  route. On the error path, where the quote throws, the cycle returns with the entry
  still at -1, and when the response holds no route the process is ended with the entry
  at -1: the \<^verbatim>\<open>catch\<close> block never writes a status, and there is no error marker.
\<close>

theorem iteration_and_queue_entry:
  "(iteration (fst (PingPongStrategy_execute cache env)) = iteration cache + 1
    \<and> queue (fst (PingPongStrategy_execute cache env)) (iteration cache + 1)
        = Some (if quote_has_routes env then 0 else - 1)
    \<and> (\<forall>k. k \<noteq> iteration cache + 1 \<longrightarrow>
          queue (fst (PingPongStrategy_execute cache env)) k = queue cache k)
    \<and> (quote_throws env \<longrightarrow> snd (snd (PingPongStrategy_execute cache env)) = Return ()))
   \<and> (iteration (fst (ArbitrageStrategy_execute cache env)) = iteration cache + 1
    \<and> queue (fst (ArbitrageStrategy_execute cache env)) (iteration cache + 1)
        = Some (if quote_has_routes env then 0 else - 1)
    \<and> (\<forall>k. k \<noteq> iteration cache + 1 \<longrightarrow>
          queue (fst (ArbitrageStrategy_execute cache env)) k = queue cache k)
    \<and> (quote_throws env \<longrightarrow> snd (snd (ArbitrageStrategy_execute cache env)) = Return ()))"
  using pingpong_cycle_queue[of cache env] arbitrage_cycle_queue[of cache env] by blast

lemma quote_timeout_throws: "quote_throws quote_timeout" "\<not> quote_has_routes quote_timeout"
  by (simp_all add: quote_throws_def quote_has_routes_def quote_timeout_def)

lemma quote_of_has_routes:
  "quote_has_routes (quote_of (r # rs))" "\<not> quote_throws (quote_of rs)"
  "quote_without_routes (quote_of [])"
  by (simp_all add: quote_throws_def quote_has_routes_def quote_of_def quote_without_routes_def)

text \<open>
  The theorem on the initial cache: a cycle with one route ends with entry 1 at 0 and no
  other entry; a cycle whose quote times out returns with entry 1 at -1.
\<close>

theorem iteration_and_queue_entry_witness:
  "iteration (fst (PingPongStrategy_execute initialCache (quote_of [route_via ''Orca'' 101]))) = 1
   \<and> queue (fst (PingPongStrategy_execute initialCache (quote_of [route_via ''Orca'' 101]))) 1
       = Some 0
   \<and> queue (fst (PingPongStrategy_execute initialCache (quote_of [route_via ''Orca'' 101]))) 7
       = None
   \<and> queue (fst (ArbitrageStrategy_execute initialCache quote_timeout)) 1 = Some (- 1)
   \<and> snd (snd (ArbitrageStrategy_execute initialCache quote_timeout)) = Return ()"
  using iteration_and_queue_entry[of initialCache "quote_of [route_via ''Orca'' 101]"]
    iteration_and_queue_entry[of initialCache quote_timeout]
  by (simp add: quote_timeout_throws quote_of_has_routes initialCache_def)

text \<open>
  C5 as the specification states it fails on the error path: the quote throws, the cycle
  settles (the call returns), and the entry of its iteration is still -1.
\<close>

theorem failed_cycle_stays_pending:
  "snd (snd (PingPongStrategy_execute initialCache quote_timeout)) = Return ()
   \<and> iteration (fst (PingPongStrategy_execute initialCache quote_timeout)) = 1
   \<and> queue (fst (PingPongStrategy_execute initialCache quote_timeout)) 1 = Some (- 1)"
  by (simp add: PingPongStrategy_execute_def PingPongStrategy_try_def quote_timeout_def
      initialCache_def Let_def)

text \<open>
  C4 (as amended). When the quote collaborator reports a transport or protocol failure
  (the call throws), the cycle ends early: the \<^verbatim>\<open>catch\<close> block prints the error, the
  call returns and no termination is requested. When it answers without a single route
  (an empty list, or no list at all), \<open>checkRoutesResponse\<close> prints an error and
  requests process termination with exit status 1.
\<close>

theorem quote_failure_scope:
  "(quote_throws env \<longrightarrow>
      (\<exists>e. snd (PingPongStrategy_execute cache env)
              = ([ErrorThrown ''Error executing ping pong strategy:'' e], Return ()))
      \<and> (\<exists>e. snd (ArbitrageStrategy_execute cache env)
              = ([ErrorThrown ''Error executing arbitrage strategy:'' e], Return ())))
   \<and> (quote_without_routes env \<longrightarrow>
      snd (snd (PingPongStrategy_execute cache env)) = Exit 1
      \<and> fst (snd (PingPongStrategy_execute cache env)) \<noteq> []
      \<and> snd (snd (ArbitrageStrategy_execute cache env)) = Exit 1
      \<and> fst (snd (ArbitrageStrategy_execute cache env)) \<noteq> [])"
proof (intro conjI impI)
  assume t: "quote_throws env"
  from pingpong_cycle_throws[OF t, of cache]
  show "\<exists>e. snd (PingPongStrategy_execute cache env)
              = ([ErrorThrown ''Error executing ping pong strategy:'' e], Return ())" by auto
  from arbitrage_cycle_throws[OF t, of cache]
  show "\<exists>e. snd (ArbitrageStrategy_execute cache env)
              = ([ErrorThrown ''Error executing arbitrage strategy:'' e], Return ())" by auto
next
  assume w: "quote_without_routes env"
  from pingpong_cycle_without_routes[OF w, of cache]
  show "snd (snd (PingPongStrategy_execute cache env)) = Exit 1"
    "fst (snd (PingPongStrategy_execute cache env)) \<noteq> []" by auto
  from arbitrage_cycle_without_routes[OF w, of cache]
  show "snd (snd (ArbitrageStrategy_execute cache env)) = Exit 1"
    "fst (snd (ArbitrageStrategy_execute cache env)) \<noteq> []" by auto
qed

text \<open>
  The theorem on the initial cache, for a quote that times out and for an empty list of
  routes.
\<close>

theorem quote_failure_scope_witness:
  "quote_throws quote_timeout
   \<and> (\<exists>e. snd (PingPongStrategy_execute initialCache quote_timeout)
              = ([ErrorThrown ''Error executing ping pong strategy:'' e], Return ()))
   \<and> quote_without_routes (quote_of [])
   \<and> snd (snd (ArbitrageStrategy_execute initialCache (quote_of []))) = Exit 1"
  using quote_failure_scope[of quote_timeout initialCache]
    quote_failure_scope[of "quote_of []" initialCache]
  by (simp add: quote_timeout_throws quote_of_has_routes)

text \<open>
  C4 as the specification states it fails: a quote that returns zero routes ends the
  process with exit status 1.
\<close>

theorem zero_routes_end_the_process:
  "quote_without_routes (quote_of [])
   \<and> PingPongStrategy_execute initialCache (quote_of [])
       = (initialCache\<lparr>iteration := 1, queue := [1 \<mapsto> - 1]\<rparr>,
          [LogRoutes (RoutesInfos []),
           Error ''No routes found or something is wrong with RPC / Jupiter!''],
          Exit 1)"
  using quote_of_has_routes(3)
  by (simp add: PingPongStrategy_execute_def PingPongStrategy_try_def
      quote_of_def initialCache_def Let_def checkRoutesResponse_def)

subsection \<open>The most profitable route\<close>

lemma profitOf_route:
  "0 < a \<Longrightarrow> profitOf (Fin a) (outAmountNumber r) = Fin (percentageOf a r)"
  by (simp add: profitOf_Fin outAmountNumber_def percentageOf_def spec_profitPercentage_def)

lemma percentageOf_less:
  "0 < a \<Longrightarrow> (percentageOf a r < percentageOf a r') = (outAmount r < outAmount r')"
  by (simp add: percentageOf_def spec_profitPercentage_def divide_strict_right_mono
      divide_less_cancel)

lemma percentageOf_le:
  "0 < a \<Longrightarrow> (percentageOf a r \<le> percentageOf a r') = (outAmount r \<le> outAmount r')"
  by (simp add: percentageOf_def spec_profitPercentage_def divide_le_cancel)

lemma scanRoutes_snoc:
  "scanRoutes amt (xs @ [x]) acc =
     (case scanRoutes amt xs acc of
        (m, h) \<Rightarrow> if num_gt (profitOf amt (outAmountNumber x)) h
                  then (x, profitOf amt (outAmountNumber x)) else (m, h))"
  by (induction amt xs acc rule: scanRoutes.induct) auto

lemma scanRoutes_choice:
  assumes "0 < a"
  shows "\<exists>best pre post.
           scanRoutes (Fin a) later (b, Fin (percentageOf a b)) = (best, Fin (percentageOf a best))
           \<and> b # later = pre @ best # post
           \<and> (\<forall>r\<in>set pre. percentageOf a r < percentageOf a best)
           \<and> (\<forall>r\<in>set post. percentageOf a r \<le> percentageOf a best)"
proof (induction later rule: rev_induct)
  case Nil
  show ?case by (intro exI[of _ b] exI[of _ "[]"]) simp
next
  case (snoc x xs)
  then obtain best pre post where
    s: "scanRoutes (Fin a) xs (b, Fin (percentageOf a b)) = (best, Fin (percentageOf a best))"
    and d: "b # xs = pre @ best # post"
    and lt: "\<forall>r\<in>set pre. percentageOf a r < percentageOf a best"
    and le: "\<forall>r\<in>set post. percentageOf a r \<le> percentageOf a best" by blast
  show ?case
  proof (cases "percentageOf a best < percentageOf a x")
    case True
    have "\<forall>r\<in>set (b # xs). percentageOf a r < percentageOf a x"
      using d lt le True by (auto simp: d)
    with s True assms show ?thesis
      by (intro exI[of _ x] exI[of _ "b # xs"] exI[of _ "[]"])
         (simp add: scanRoutes_snoc profitOf_route num_gt_def)
  next
    case False
    with s d lt le assms show ?thesis
      by (intro exI[of _ best] exI[of _ pre] exI[of _ "post @ [x]"])
         (auto simp: scanRoutes_snoc profitOf_route num_gt_def)
  qed
qed

lemma mostProfitable_choice:
  assumes "0 < a"
  shows "\<exists>best pre post.
           mostProfitable (Fin a) first later = (best, Fin (percentageOf a best))
           \<and> first # later = pre @ best # post
           \<and> (\<forall>r\<in>set pre. percentageOf a r < percentageOf a best)
           \<and> (\<forall>r\<in>set post. percentageOf a r \<le> percentageOf a best)"
  using scanRoutes_choice[OF assms, of later first] assms
  by (simp add: mostProfitable_def profitOf_route)

lemma mostProfitable_max:
  assumes "0 < a"
  shows "fst (mostProfitable (Fin a) first later) \<in> set (first # later)
         \<and> (\<forall>r\<in>set (first # later).
               percentageOf a r \<le> percentageOf a (fst (mostProfitable (Fin a) first later)))
         \<and> snd (mostProfitable (Fin a) first later)
               = Fin (percentageOf a (fst (mostProfitable (Fin a) first later)))"
proof -
  from mostProfitable_choice[OF assms, of first later] obtain best pre post where
    m: "mostProfitable (Fin a) first later = (best, Fin (percentageOf a best))"
    and d: "first # later = pre @ best # post"
    and lt: "\<forall>r\<in>set pre. percentageOf a r < percentageOf a best"
    and le: "\<forall>r\<in>set post. percentageOf a r \<le> percentageOf a best" by blast
  have "\<forall>r\<in>set (first # later). percentageOf a r \<le> percentageOf a best"
    using lt le by (auto simp: d less_imp_le)
  moreover have "best \<in> set (first # later)" by (simp add: d)
  ultimately show ?thesis using m by simp
qed

lemma mostProfitable_permuted:
  assumes "0 < a" "mset (first' # later') = mset (first # later)"
  shows "snd (mostProfitable (Fin a) first' later') = snd (mostProfitable (Fin a) first later)
         \<and> ((\<forall>r\<in>set (first # later).
                 percentageOf a r = percentageOf a (fst (mostProfitable (Fin a) first later))
                 \<longrightarrow> r = fst (mostProfitable (Fin a) first later))
              \<longrightarrow> fst (mostProfitable (Fin a) first' later')
                    = fst (mostProfitable (Fin a) first later))"
proof -
  let ?b = "fst (mostProfitable (Fin a) first later)"
  let ?b' = "fst (mostProfitable (Fin a) first' later')"
  have st: "set (first' # later') = set (first # later)"
    using assms(2) by (metis set_mset_mset)
  from mostProfitable_max[OF assms(1), of first later] mostProfitable_max[OF assms(1), of first' later'] st
  have "percentageOf a ?b' \<le> percentageOf a ?b" "percentageOf a ?b \<le> percentageOf a ?b'"
    and in': "?b' \<in> set (first # later)"
    and s: "snd (mostProfitable (Fin a) first later) = Fin (percentageOf a ?b)"
    and s': "snd (mostProfitable (Fin a) first' later') = Fin (percentageOf a ?b')"
    by blast+
  then have eq: "percentageOf a ?b' = percentageOf a ?b" by simp
  with s s' in' show ?thesis by auto
qed

lemma arbitrage_cycle_console:
  assumes "amountInJSBI env = Returns u" "routes env = Returns (RoutesInfos (first # later))"
  shows "\<exists>more. fst (snd (ArbitrageStrategy_execute cache env)) =
           (if later = [] then Log ''Not enough routes found for arbitrage comparison''
            else LogArbitrageIteration (iteration cache + 1)
                   (snd (mostProfitable (arbitrage_amountToTrade cache) first later))
                   (Suc (length later))) # more"
  using assms
  by (cases later)
     (auto simp: ArbitrageStrategy_execute_def ArbitrageStrategy_try_def Let_def
      checkRoutesResponse_def arbitrage_amountToTrade_def)


lemma three_routes:
  "mostProfitable (Fin 100) (route_via ''Orca'' 101)
      [route_via ''Raydium'' 103, route_via ''Serum'' 103]
     = (route_via ''Raydium'' 103, Fin 3)"
  by (simp add: mostProfitable_def profitOf_def calculateProfit_def outAmountNumber_def
      route_via_def num_gt_def)

lemma three_routes_shuffled:
  "mostProfitable (Fin 100) (route_via ''Raydium'' 103)
      [route_via ''Orca'' 101, route_via ''Serum'' 103]
     = (route_via ''Raydium'' 103, Fin 3)"
  by (simp add: mostProfitable_def profitOf_def calculateProfit_def outAmountNumber_def
      route_via_def num_gt_def)



subsection \<open>The side flag\<close>

lemma pingpong_try_direction:
  "pingpong_try st i t a env = Inr (st', r) \<Longrightarrow>
     direction st' = (if success r then flipped (direction st) else direction st)"
  by (auto simp: pingpong_try_def failed_def flipped_def Let_def
      split: reply.splits option.splits list.splits)

lemma pingpong_call_direction:
  "direction (fst (pingpong_call st c)) =
     (if succeeded (snd (snd (pingpong_call st c))) then flipped (direction st)
      else direction st)"
proof (cases "wallet st")
  case False
  then show ?thesis
    by (simp add: pingpong_call_def pingpong_execute_def succeeded_def failed_def)
next
  case True
  show ?thesis
  proof (cases "pingpong_try st (call_inputToken c) (call_outputToken c) (call_amount c) (call_env c)")
    case (Inl e)
    with True show ?thesis
      by (simp add: pingpong_call_def pingpong_execute_def succeeded_def failed_def Let_def)
  next
    case (Inr p)
    obtain st' r where p: "p = (st', r)" by (cases p)
    with Inr True pingpong_try_direction[of st _ _ _ _ st' r] show ?thesis
      by (simp add: pingpong_call_def pingpong_execute_def succeeded_def)
  qed
qed

lemma pingpong_cycle_side:
  "sideBuy (fst (PingPongStrategy_execute cache env)) =
     (case routes env of
        Returns (RoutesInfos (route # others)) \<Rightarrow>
          (if \<not> throws (amountInJSBI env)
              \<and> num_gt (profitOf (pingpong_baseAmount cache) (outAmountNumber route))
                   (minPercProfit (config cache))
              \<and> tradingEnabled cache
           then \<not> sideBuy cache else sideBuy cache)
      | _ \<Rightarrow> sideBuy cache)"
proof -
  consider (t) "quote_throws env" | (w) "quote_without_routes env" | (h) "quote_has_routes env"
    using quote_kinds(1) by blast
  then show ?thesis
  proof cases
    case t
    from pingpong_cycle_throws[OF t, of cache] t show ?thesis
      by (auto simp: quote_throws_def split: reply.splits routes_response.splits list.splits)
  next
    case w
    from pingpong_cycle_without_routes[OF w, of cache] quote_without_routes_response[OF w]
    show ?thesis by (auto split: reply.splits routes_response.splits list.splits)
  next
    case h
    from quote_has_routes_response[OF h] obtain u r rs where
      e: "amountInJSBI env = Returns u" "routes env = Returns (RoutesInfos (r # rs))" by blast
    from pingpong_cycle_with_routes[OF e, of cache] e show ?thesis by auto
  qed
qed


lemma profitable_quote:
  "num_gt (profitOf (pingpong_baseAmount initialCache) (outAmountNumber (route_via ''Orca'' 101)))
     (minPercProfit (config initialCache))"
  by (simp add: profitOf_def calculateProfit_def pingpong_baseAmount_def initialCache_def
      hundred_def outAmountNumber_def route_via_def num_gt_def)

lemma unprofitable_quote:
  "\<not> num_gt (profitOf (pingpong_baseAmount initialCache) (outAmountNumber (route_via ''Orca'' 100)))
     (minPercProfit (config initialCache))"
  by (simp add: profitOf_def calculateProfit_def pingpong_baseAmount_def initialCache_def
      hundred_def outAmountNumber_def route_via_def num_gt_def)


subsection \<open>Retries\<close>

lemma sendLoop_nonempty:
  "int retries < maxRetries \<Longrightarrow> fst (sendLoop send maxRetries retries) \<noteq> []"
  by (subst sendLoop.simps) (auto split: reply.splits prod.splits)

lemma sendLoop_spaced:
  "spaced (fst (sendLoop send maxRetries retries))"
proof (induction send maxRetries retries rule: sendLoop.induct)
  case (1 send maxRetries retries)
  show ?case
  proof (cases "int retries < maxRetries")
    case False
    then show ?thesis by (subst sendLoop.simps) simp
  next
    case True
    show ?thesis
    proof (cases "send retries")
      case (Returns s)
      with True show ?thesis by (subst sendLoop.simps) simp
    next
      case (Throws e)
      show ?thesis
      proof (cases "int (retries + 1) \<ge> maxRetries")
        case True
        with Throws \<open>int retries < maxRetries\<close> show ?thesis by (subst sendLoop.simps) simp
      next
        case False
        with "1.IH"[OF \<open>int retries < maxRetries\<close> Throws] 
        have "spaced (fst (sendLoop send maxRetries (retries + 1)))" by simp
        moreover from False have "fst (sendLoop send maxRetries (retries + 1)) \<noteq> []"
          by (intro sendLoop_nonempty) simp
        ultimately show ?thesis using Throws False \<open>int retries < maxRetries\<close>
          by (subst sendLoop.simps) (auto split: prod.splits)
      qed
    qed
  qed
qed

lemma sendLoop_attempts:
  "attempts (fst (sendLoop send maxRetries retries)) \<le> nat (maxRetries - int retries)"
proof (induction send maxRetries retries rule: sendLoop.induct)
  case (1 send maxRetries retries)
  show ?case
  proof (cases "int retries < maxRetries")
    case False
    then show ?thesis by (subst sendLoop.simps) (simp add: attempts_def)
  next
    case True
    show ?thesis
    proof (cases "send retries")
      case (Returns s)
      with True show ?thesis by (subst sendLoop.simps) (simp add: attempts_def)
    next
      case (Throws e)
      show ?thesis
      proof (cases "int (retries + 1) \<ge> maxRetries")
        case True
        with Throws \<open>int retries < maxRetries\<close> show ?thesis
          by (subst sendLoop.simps) (simp add: attempts_def)
      next
        case False
        with "1.IH"[OF \<open>int retries < maxRetries\<close> Throws]
        have "attempts (fst (sendLoop send maxRetries (retries + 1)))
                \<le> nat (maxRetries - int (retries + 1))" by simp
        then show ?thesis using Throws False \<open>int retries < maxRetries\<close>
          by (subst sendLoop.simps) (auto simp: attempts_def split: prod.splits)
      qed
    qed
  qed
qed

lemma sendLoop_first_success:
  "retries \<le> k \<Longrightarrow> int k < maxRetries \<Longrightarrow> send k = Returns signature \<Longrightarrow>
   (\<forall>j. retries \<le> j \<and> j < k \<longrightarrow> throws (send j)) \<Longrightarrow>
     snd (sendLoop send maxRetries retries) = Inr signature
     \<and> attempts (fst (sendLoop send maxRetries retries)) = k - retries + 1"
proof (induction send maxRetries retries rule: sendLoop.induct)
  case (1 send maxRetries retries)
  show ?case
  proof (cases "retries = k")
    case True
    with "1.prems" show ?thesis by (subst (1 2) sendLoop.simps) (simp add: attempts_def)
  next
    case False
    with "1.prems" have lt: "retries < k" by simp
    with "1.prems" have "throws (send retries)" by simp
    then obtain e where e: "send retries = Throws e" by (cases "send retries") auto
    from lt "1.prems" have c: "int retries < maxRetries" "\<not> int (retries + 1) \<ge> maxRetries"
      by auto
    from "1.IH"[OF c(1) e c(2)] lt "1.prems"
    have "snd (sendLoop send maxRetries (retries + 1)) = Inr signature
     \<and> attempts (fst (sendLoop send maxRetries (retries + 1))) = k - (retries + 1) + 1"
      by simp
    with e c lt show ?thesis
      by (subst (1 2) sendLoop.simps) (auto simp: attempts_def split: prod.splits)
  qed
qed

lemma sendLoop_all_fail:
  "int retries < maxRetries \<Longrightarrow>
   (\<forall>j. retries \<le> j \<and> int j < maxRetries \<longrightarrow> throws (send j)) \<Longrightarrow>
   send (nat (maxRetries - 1)) = Throws e \<Longrightarrow>
     snd (sendLoop send maxRetries retries) = Inl e
     \<and> attempts (fst (sendLoop send maxRetries retries)) = nat (maxRetries - int retries)"
proof (induction send maxRetries retries rule: sendLoop.induct)
  case (1 send maxRetries retries)
  from "1.prems" have "throws (send retries)" by simp
  then obtain e' where e': "send retries = Throws e'" by (cases "send retries") auto
  show ?case
  proof (cases "int (retries + 1) \<ge> maxRetries")
    case True
    with "1.prems" have "nat (maxRetries - 1) = retries" by simp
    with e' "1.prems" have "e' = e" by simp
    with e' True "1.prems" show ?thesis
      by (subst (1 2) sendLoop.simps) (simp add: attempts_def)
  next
    case False
    with "1.IH"[OF "1.prems"(1) e' False] "1.prems"
    have "snd (sendLoop send maxRetries (retries + 1)) = Inl e
     \<and> attempts (fst (sendLoop send maxRetries (retries + 1))) = nat (maxRetries - int (retries + 1))"
      by simp
    with e' False "1.prems" show ?thesis
      by (subst (1 2) sendLoop.simps) (auto simp: attempts_def split: prod.splits)
  qed
qed

lemma sendLoop_fail_fail_ok:
  assumes "send 0 = Throws e0" "send 1 = Throws e1" "send 2 = Returns signature"
  shows "sendLoop send 3 0 =
       ([SendAndConfirm 0, RetryLog 1 3, Wait 1000, SendAndConfirm 1, RetryLog 2 3, Wait 1000,
         SendAndConfirm 2], Inr signature)"
proof -
  have s2: "sendLoop send 3 2 = ([SendAndConfirm 2], Inr signature)"
    using assms(3) by (subst sendLoop.simps) simp
  have s1: "sendLoop send 3 1 =
      ([SendAndConfirm 1, RetryLog 2 3, Wait 1000, SendAndConfirm 2], Inr signature)"
    using assms(2) s2 by (subst sendLoop.simps) (simp add: numeral_2_eq_2)
  show ?thesis
    using assms(1) s1 by (subst sendLoop.simps) simp
qed

text \<open>
  C7. With the default budget, \<open>sendTransactionWithRetry\<close> submits at most 3 times;
  consecutive submissions are separated by a retry message and a delay of 1000
  milliseconds; it returns the signature of the first submission that succeeds and
  submits no more after it; when all three submissions fail it throws the error of the
  last one. In particular, with a submitter that fails twice and then succeeds it
  returns the signature after exactly three submissions and two delays.
\<close>

theorem retry_with_default_budget:
  "attempts (fst (sendTransactionWithRetry send None)) \<le> 3
   \<and> spaced (fst (sendTransactionWithRetry send None))
   \<and> (k < 3 \<and> send k = Returns signature \<and> (\<forall>j<k. throws (send j)) \<longrightarrow>
        snd (sendTransactionWithRetry send None) = Inr signature
        \<and> attempts (fst (sendTransactionWithRetry send None)) = k + 1)
   \<and> ((\<forall>j<3. throws (send j)) \<and> send 2 = Throws e \<longrightarrow>
        snd (sendTransactionWithRetry send None) = Inl e
        \<and> attempts (fst (sendTransactionWithRetry send None)) = 3)
   \<and> (send 0 = Throws e0 \<and> send 1 = Throws e1 \<and> send 2 = Returns signature \<longrightarrow>
        sendTransactionWithRetry send None =
          ([SendAndConfirm 0, RetryLog 1 3, Wait 1000, SendAndConfirm 1, RetryLog 2 3,
            Wait 1000, SendAndConfirm 2], Inr signature))"
proof -
  have a: "attempts (fst (sendTransactionWithRetry send None)) \<le> 3"
    using sendLoop_attempts[of send 3 0] by (simp add: sendTransactionWithRetry_def)
  have s: "spaced (fst (sendTransactionWithRetry send None))"
    using sendLoop_spaced[of send 3 0] by (simp add: sendTransactionWithRetry_def)
  have f: "k < 3 \<and> send k = Returns signature \<and> (\<forall>j<k. throws (send j)) \<longrightarrow>
        snd (sendTransactionWithRetry send None) = Inr signature
        \<and> attempts (fst (sendTransactionWithRetry send None)) = k + 1"
    using sendLoop_first_success[of 0 k 3 send signature]
    by (simp add: sendTransactionWithRetry_def)
  have x: "(\<forall>j<3. throws (send j)) \<and> send 2 = Throws e \<longrightarrow>
        snd (sendTransactionWithRetry send None) = Inl e
        \<and> attempts (fst (sendTransactionWithRetry send None)) = 3"
    using sendLoop_all_fail[of 0 3 send e]
    by (simp add: sendTransactionWithRetry_def)
  have t: "send 0 = Throws e0 \<and> send 1 = Throws e1 \<and> send 2 = Returns signature \<longrightarrow>
        sendTransactionWithRetry send None =
          ([SendAndConfirm 0, RetryLog 1 3, Wait 1000, SendAndConfirm 1, RetryLog 2 3,
            Wait 1000, SendAndConfirm 2], Inr signature)"
    using sendLoop_fail_fail_ok[of send e0 e1 signature]
    by (simp add: sendTransactionWithRetry_def)
  from a s f x t show ?thesis by blast
qed

text \<open>
  The theorem at a submitter that fails twice and then succeeds, and at one that always
  fails, with a different error the third time.
\<close>

theorem retry_with_default_budget_witness:
  "flaky 0 = Throws (ErrorObject ''Blockhash not found'')
   \<and> flaky 1 = Throws (ErrorObject ''Blockhash not found'')
   \<and> flaky 2 = Returns ''5sig''
   \<and> sendTransactionWithRetry flaky None =
       ([SendAndConfirm 0, RetryLog 1 3, Wait 1000, SendAndConfirm 1, RetryLog 2 3,
         Wait 1000, SendAndConfirm 2], Inr ''5sig'')
   \<and> attempts (fst (sendTransactionWithRetry flaky None)) = 3
   \<and> snd (sendTransactionWithRetry (\<lambda>k. Throws (OtherValue (if k = 2 then ''c'' else ''ab''))) None)
       = Inl (OtherValue ''c'')"
proof -
  have f: "flaky 0 = Throws (ErrorObject ''Blockhash not found'')"
    "flaky 1 = Throws (ErrorObject ''Blockhash not found'')"
    "flaky 2 = Returns ''5sig''" "\<forall>j<2. throws (flaky j)"
    by (simp_all add: flaky_def)
  note A = retry_with_default_budget
    [of flaky 2 "''5sig''" "ErrorObject ''x''" "ErrorObject ''Blockhash not found''"
        "ErrorObject ''Blockhash not found''"]
  note B = retry_with_default_budget
    [of "\<lambda>k. Throws (OtherValue (if k = 2 then ''c'' else ''ab''))" 0 "''5sig''"
        "OtherValue ''c''" "ErrorObject ''x''" "ErrorObject ''x''"]
  from A f have 1: "sendTransactionWithRetry flaky None =
       ([SendAndConfirm 0, RetryLog 1 3, Wait 1000, SendAndConfirm 1, RetryLog 2 3,
         Wait 1000, SendAndConfirm 2], Inr ''5sig'')" by simp
  from A f have 2: "attempts (fst (sendTransactionWithRetry flaky None)) = 2 + 1"
    by (simp add: attempts_def)
  from B have 3: "snd (sendTransactionWithRetry
      (\<lambda>k. Throws (OtherValue (if k = 2 then ''c'' else ''ab''))) None) = Inl (OtherValue ''c'')"
    by simp
  from f 1 2 3 show ?thesis by simp
qed

subsection \<open>Event emission\<close>

lemma emit_loop_invoked:
  "invoked (snd (emit_loop call event args callbacks em)) = callbacks"
proof (induction callbacks arbitrary: em)
  case Nil
  show ?case by simp
next
  case (Cons c cs)
  obtain em' r where c: "call c args em = (em', r)" by (cases "call c args em")
  obtain em'' effects where l: "emit_loop call event args cs em' = (em'', effects)"
    by (cases "emit_loop call event args cs em'")
  from Cons.IH[of em'] l have "invoked effects = cs" by simp
  with c l show ?case by (cases r) auto
qed

lemma emit_loop_logged:
  "logged (snd (emit_loop call event args callbacks em)) = raised call args callbacks em"
proof (induction callbacks arbitrary: em)
  case Nil
  show ?case by simp
next
  case (Cons c cs)
  obtain em' r where c: "call c args em = (em', r)" by (cases "call c args em")
  obtain em'' effects where l: "emit_loop call event args cs em' = (em'', effects)"
    by (cases "emit_loop call event args cs em'")
  from Cons.IH[of em'] l have "logged effects = raised call args cs em'" by simp
  with c l show ?case by (cases r) auto
qed

lemma listeners_on: "listeners event (on event callback em) = listeners event em @ [callback]"
  by (simp add: listeners_def on_def)


lemma three_listeners_events:
  "events three_listeners = [''trade:complete'' \<mapsto> [1, 2, 3]]"
  by (simp add: three_listeners_def on_def)

lemma three_listeners_emit:
  "emit noisy ''trade:complete'' () three_listeners =
     (\<lparr>events = [''trade:complete'' \<mapsto> [1, 2]], world = [1, 2, 3]\<rparr>,
      [Invoked 1, Invoked 2, ListenerError ''trade:complete'' (ErrorObject ''listener failed''),
       Invoked 3])"
  by (simp add: emit_def three_listeners_events noisy_def off_def three_listeners_def on_def)


subsection \<open>Plugins\<close>

lemma started_append: "started (xs @ ys) = started xs @ started ys"
  by (induction xs rule: started.induct) auto

lemma stopped_append: "stopped (xs @ ys) = stopped xs @ stopped ys"
  by (induction xs rule: stopped.induct) auto

lemma start_plugins_started: "started (start_plugins ps) = map fst ps"
  by (induction ps rule: start_plugins.induct) (auto simp: started_append split: reply.splits)

lemma stop_plugins_stopped: "stopped (stop_plugins ps) = map fst ps"
  by (induction ps rule: stop_plugins.induct) (auto simp: stopped_append split: reply.splits)

lemma start_plugins_error:
  "(name, plugin) \<in> set ps \<Longrightarrow> start_reply plugin = Throws err \<Longrightarrow>
     Emit PLUGIN_ERROR (NamedError name (error_text err)) \<in> set (start_plugins ps)"
  by (induction ps rule: start_plugins.induct) auto

lemma start_plugins_ok:
  "(name, plugin) \<in> set ps \<Longrightarrow> start_reply plugin = Returns u \<Longrightarrow>
     Emit PLUGIN_STARTED (Named name) \<in> set (start_plugins ps)"
  by (induction ps rule: start_plugins.induct) auto

lemma stop_plugins_error:
  "(name, plugin) \<in> set ps \<Longrightarrow> stop_reply plugin = Throws err \<Longrightarrow>
     Emit PLUGIN_ERROR (NamedError name (error_text err)) \<in> set (stop_plugins ps)"
  by (induction ps rule: stop_plugins.induct) auto

lemma stop_plugins_ok:
  "(name, plugin) \<in> set ps \<Longrightarrow> stop_reply plugin = Returns u \<Longrightarrow>
     Emit PLUGIN_STOPPED (Named name) \<in> set (stop_plugins ps)"
  by (induction ps rule: stop_plugins.induct) auto



end
